theory Spec2Isabelle
  imports Main "HOL-Library.Word"
begin

section \<open>Text helpers\<close>

text \<open>
  The generators hold their file contents in triple-quoted Python literals. A literal that
  ends with a newline is written here as \<open>unlines\<close> of its lines, one that does not as
  \<open>join_lines\<close> (Python's \<open>'\n'.join\<close>). Strings are byte strings: the two
  non-ASCII marks of the runner script appear as their UTF-8 bytes, and the Python escape
  \<open>\n\<close> inside the (non-raw) runner literal is the newline it denotes.
\<close>

definition unlines :: "string list \<Rightarrow> string" where
  "unlines ls = concat (map (\<lambda>l. l @ [CHR 0x0A]) ls)"

fun join_lines :: "string list \<Rightarrow> string" where
  "join_lines [] = []"
| "join_lines [l] = l"
| "join_lines (l # ls) = l @ [CHR 0x0A] @ join_lines ls"

text \<open>\<open>str(n)\<close> for a non-negative Python int, as an f-string formats it.\<close>

fun str_nat :: "nat \<Rightarrow> string" where
  "str_nat n = (if n < 10 then [''0123456789'' ! n]
                else str_nat (n div 10) @ [''0123456789'' ! (n mod 10)])"

declare str_nat.simps [simp del]

text \<open>Python's \<open>sub in s\<close> on strings.\<close>

fun startswith :: "string \<Rightarrow> string \<Rightarrow> bool" where
  "startswith s [] = True"
| "startswith [] (p # ps) = False"
| "startswith (c # cs) (p # ps) = (c = p \<and> startswith cs ps)"

fun contains :: "string \<Rightarrow> string \<Rightarrow> bool" where
  "contains [] sub = (sub = [])"
| "contains (c # cs) sub = (startswith (c # cs) sub \<or> contains cs sub)"

section \<open>Generated contents of \<open>scaffold.py\<close>\<close>

definition run_bash_content :: "string" where
  \<open>run_bash_content = unlines
    [''#!/bin/bash'',
     '''',
     ''# Create bash directory if it doesn't exist'',
     ''mkdir -p bash'',
     '''',
     ''# Set log file paths'',
     ''LOG_FILE="bash/pipeline_execution.log"'',
     ''ERROR_LOG="bash/pipeline_errors.log"'',
     '''',
     ''# Clear previous logs'',
     ''> "$LOG_FILE"'',
     ''> "$ERROR_LOG"'',
     '''',
     ''# Record start time'',
     ''echo "Pipeline execution started at $(date)" | tee -a "$LOG_FILE"'',
     '''',
     ''# Define script list'',
     ''SCRIPTS=('',
     ''    "script1.py"'',
     ''    "script2.py"'',
     ''    "script3.py"'',
     ''    # Add more scripts here'',
     '')'',
     '''',
     ''# Run each script'',
     ''for script in "${SCRIPTS[@]}"; do'',
     ''    echo -e "'',
     ''=== Running $script ===" | tee -a "$LOG_FILE"'',
     ''    '',
     ''    # Check if file exists'',
     ''    if [ ! -f "$script" ]; then'',
     ''        echo "Error: Script $script not found!" | tee -a "$ERROR_LOG"'',
     ''        continue'',
     ''    fi'',
     ''    '',
     ''    # Record start time'',
     ''    start_time=$(date +%s)'',
     ''    start_datetime=$(date)'',
     ''    '',
     ''    # Run Python script and wait for completion'',
     ''    python "$script" 2>> "$ERROR_LOG" && wait'',
     ''    '',
     ''    if [ $? -eq 0 ]; then'',
     ''        # Calculate execution time'',
     ''        end_time=$(date +%s)'',
     ''        end_datetime=$(date)'',
     ''        duration=$((end_time - start_time))'',
     ''        '',
     ''        # Convert duration to readable format'',
     ''        hours=$((duration / 3600))'',
     ''        minutes=$(( (duration % 3600) / 60 ))'',
     ''        seconds=$((duration % 60))'',
     ''        '',
     ''        echo "'' @ [CHR 0xE2, CHR 0x9C, CHR 0x93] @ '' Successfully completed $script" | tee -a "$LOG_FILE"'',
     ''        echo "Started at: $start_datetime" | tee -a "$LOG_FILE"'',
     ''        echo "Finished at: $end_datetime" | tee -a "$LOG_FILE"'',
     ''        echo "Duration: ${hours}h ${minutes}m ${seconds}s" | tee -a "$LOG_FILE"'',
     ''    else'',
     ''        echo "'' @ [CHR 0xE2, CHR 0x9C, CHR 0x97] @ '' Failed to execute $script" | tee -a "$LOG_FILE"'',
     ''        echo "Check $ERROR_LOG for details"'',
     ''        '',
     ''        read -p "Continue with next script? (y/n) " -n 1 -r'',
     ''        echo'',
     ''        if [[ ! $REPLY =~ ^[Yy]$ ]]; then'',
     ''            echo "Pipeline execution stopped by user" | tee -a "$LOG_FILE"'',
     ''            exit 1'',
     ''        fi'',
     ''    fi'',
     ''done'',
     '''',
     ''echo -e "'',
     ''Pipeline execution completed at $(date)" | tee -a "$LOG_FILE"'']\<close>

definition helpers_content :: "string" where
  \<open>helpers_content = unlines
    [''import os'',
     ''from pathlib import Path'',
     '''',
     ''def set_working_directory() -> Path:'',
     ''    """'',
     ''    Set the working directory to the project root.'',
     ''    This function should be called at the beginning of each script.'',
     ''    '',
     ''    Returns:'',
     ''        Path: Project root directory path'',
     ''    """'',
     ''    # Get the directory of the current script'',
     ''    current_dir = Path(os.path.dirname(os.path.abspath(__file__)))'',
     ''    '',
     ''    # Set working directory to project root (parent of current script)'',
     ''    os.chdir(current_dir)'',
     ''    '',
     ''    return current_dir'',
     '''',
     ''def setup_paths() -> dict:'',
     ''    """'',
     ''    Create a dictionary of important project paths.'',
     ''    '',
     ''    Returns:'',
     ''        dict: Dictionary containing paths for different project directories'',
     ''    """'',
     ''    root_dir = set_working_directory()'',
     ''    '',
     ''    paths = {'',
     ''        'root': root_dir,'',
     ''        'data': root_dir / 'data','',
     ''        'output': root_dir / 'output','',
     ''        'logs': root_dir / 'logs','',
     ''        'bash': root_dir / 'bash'' @ [CHR 0x27],
     ''    }'',
     ''    '',
     ''    return paths'',
     '''',
     ''# Example usage:'',
     ''if __name__ == "__main__":'',
     ''    # Set working directory'',
     ''    project_dir = set_working_directory()'',
     ''    print(f"Working directory set to: {project_dir}")'',
     ''    '',
     ''    # Get project paths'',
     ''    paths = setup_paths()'',
     ''    print("Project paths:")'',
     ''    for key, path in paths.items():'',
     ''        print(f"{key}: {path}")'']\<close>

definition license_content :: "nat \<Rightarrow> string" where
  \<open>license_content current_year = unlines
    [''MIT License'',
     '''',
     ''Copyright (c) '' @ str_nat current_year @ '' Jeremy'',
     '''',
     ''Permission is hereby granted, free of charge, to any person obtaining a copy'',
     ''of this software and associated documentation files (the "Software"), to deal'',
     ''in the Software without restriction, including without limitation the rights'',
     ''to use, copy, modify, merge, publish, distribute, sublicense, and/or sell'',
     ''copies of the Software, and to permit persons to whom the Software is'',
     ''furnished to do so, subject to the following conditions:'',
     '''',
     ''The above copyright notice and this permission notice shall be included in all'',
     ''copies or substantial portions of the Software.'',
     '''',
     ''THE SOFTWARE IS PROVIDED "AS IS", WITHOUT WARRANTY OF ANY KIND, EXPRESS OR'',
     ''IMPLIED, INCLUDING BUT NOT LIMITED TO THE WARRANTIES OF MERCHANTABILITY,'',
     ''FITNESS FOR A PARTICULAR PURPOSE AND NONINFRINGEMENT. IN NO EVENT SHALL THE'',
     ''AUTHORS OR COPYRIGHT HOLDERS BE LIABLE FOR ANY CLAIM, DAMAGES OR OTHER'',
     ''LIABILITY, WHETHER IN AN ACTION OF CONTRACT, TORT OR OTHERWISE, ARISING FROM,'',
     ''OUT OF OR IN CONNECTION WITH THE SOFTWARE OR THE USE OR OTHER DEALINGS IN THE'',
     ''SOFTWARE.'']\<close>

definition gitignore_content :: "string" where
  \<open>gitignore_content = unlines
    [''# Ignore everything'',
     ''*'',
     '''',
     ''# But not these files...'',
     ''!.gitignore'',
     ''!README.md'',
     ''!LICENSE'']\<close>

definition readme_content :: "string" where
  \<open>readme_content = ''# Project Title''\<close>

definition final_gitignore_content :: "string" where
  \<open>final_gitignore_content = join_lines
    [''# ignore all'',
     ''*'',
     '''',
     ''# except for these files'',
     ''!README.md'',
     ''!.gitignore'',
     ''!*.py'',
     ''!*.bash'']\<close>

section \<open>Generated contents of \<open>scaffold_package.py\<close>\<close>

definition init_content :: "string \<Rightarrow> string" where
  \<open>init_content package_name = unlines
    [''"""'',
     package_name @ '' - Python package scaffold'',
     ''"""'',
     '''',
     ''__version__ = "0.1.0"'',
     ''__author__ = "Jeremy"'']\<close>

definition base_content :: "string" where
  \<open>base_content = unlines
    [''from abc import ABC, abstractmethod'',
     '''',
     ''class BaseClass(ABC):'',
     ''    """Abstract base class template."""'',
     ''    '',
     ''    def __init__(self):'',
     ''        """Initialize base class."""'',
     ''        pass'',
     ''        '',
     ''    @abstractmethod'',
     ''    def process(self):'',
     ''        """Template method to be implemented by subclasses."""'',
     ''        pass'']\<close>

definition test_content :: "string" where
  \<open>test_content = unlines
    ['''']\<close>

definition example_content :: "string" where
  \<open>example_content = unlines
    ['''',
     ''# Add example usage here'']\<close>

definition pyproject_content :: "string \<Rightarrow> string" where
  \<open>pyproject_content package_name = unlines
    [''[build-system]'',
     ''requires = ["setuptools>=45", "wheel"]'',
     ''build-backend = "setuptools.build_meta"'',
     '''',
     ''[project]'',
     ''name = "'' @ package_name @ ''"'',
     ''version = "0.1.0"'',
     ''requires-python = ">=3.8"'',
     '''',
     ''[tool.black]'',
     ''line-length = 88'',
     ''target-version = ["py38"]'',
     '''',
     ''[tool.isort]'',
     ''profile = "black"'',
     ''multi_line_output = 3'']\<close>

definition pkg_readme_content :: "string \<Rightarrow> string" where
  \<open>pkg_readme_content package_name = unlines
    [''# '' @ package_name,
     ''## Installation'',
     '''',
     ''```bash'',
     ''pip install -e .'',
     ''```'',
     '''',
     ''## Usage'',
     '''',
     ''```python'',
     ''from '' @ package_name @ ''.base import BaseClass'',
     ''```'']\<close>

definition pkg_license_content :: "nat \<Rightarrow> string" where
  \<open>pkg_license_content current_year = unlines
    [''MIT License'',
     '''',
     ''Copyright (c) '' @ str_nat current_year @ '' Jeremy'',
     '''',
     ''Permission is hereby granted, free of charge, to any person obtaining a copy'',
     ''of this software and associated documentation files (the "Software"), to deal'',
     ''in the Software without restriction, including without limitation the rights'',
     ''to use, copy, modify, merge, publish, distribute, sublicense, and/or sell'',
     ''copies of the Software, and to permit persons to whom the Software is'',
     ''furnished to do so, subject to the following conditions:'',
     '''',
     ''The above copyright notice and this permission notice shall be included in all'',
     ''copies or substantial portions of the Software.'',
     '''',
     ''THE SOFTWARE IS PROVIDED "AS IS", WITHOUT WARRANTY OF ANY KIND, EXPRESS OR'',
     ''IMPLIED, INCLUDING BUT NOT LIMITED TO THE WARRANTIES OF MERCHANTABILITY,'',
     ''FITNESS FOR A PARTICULAR PURPOSE AND NONINFRINGEMENT. IN NO EVENT SHALL THE'',
     ''AUTHORS OR COPYRIGHT HOLDERS BE LIABLE FOR ANY CLAIM, DAMAGES OR OTHER'',
     ''LIABILITY, WHETHER IN AN ACTION OF CONTRACT, TORT OR OTHERWISE, ARISING FROM,'',
     ''OUT OF OR IN CONNECTION WITH THE SOFTWARE OR THE USE OR OTHER DEALINGS IN THE'',
     ''SOFTWARE.'']\<close>

definition pkg_gitignore_content :: "string" where
  \<open>pkg_gitignore_content = unlines
    [''# Ignore everything'',
     ''*'',
     '''',
     ''# But not these files...'',
     ''!.gitignore'',
     ''!README.md'',
     ''!LICENSE'']\<close>

section \<open>Paths\<close>

text \<open>
  A \<open>pathlib\<close> POSIX path: its root (\<open>''''\<close>, \<open>''/''\<close> or \<open>''//''\<close>) and its
  components. Parsing a string drops empty and \<open>.\<close> components and keeps \<open>..\<close>;
  joining with an absolute path discards the left operand.
\<close>

datatype path = Path (path_root: string) (path_parts: "string list")

fun split_sep :: "char \<Rightarrow> string \<Rightarrow> string list" where
  "split_sep sep [] = [[]]"
| "split_sep sep (c # cs) =
     (if c = sep then [] # split_sep sep cs
      else (case split_sep sep cs of
              [] \<Rightarrow> [[c]]
            | w # ws \<Rightarrow> (c # w) # ws))"

definition splitroot :: "string \<Rightarrow> string \<times> string" where
  "splitroot p =
     (if take 1 p \<noteq> ''/'' then ('''', p)
      else if take 1 (drop 1 p) \<noteq> ''/'' \<or> take 1 (drop 2 p) = ''/'' then (''/'', drop 1 p)
      else (take 2 p, drop 2 p))"

definition parse_path :: "string \<Rightarrow> path" where
  "parse_path s =
     (case splitroot s of
        (r, rel) \<Rightarrow> Path r (filter (\<lambda>x. x \<noteq> [] \<and> x \<noteq> ''.'') (split_sep CHR ''/'' rel)))"

definition truediv :: "path \<Rightarrow> path \<Rightarrow> path" where
  "truediv p q =
     (if path_root q \<noteq> [] then q
      else Path (path_root p) (path_parts p @ path_parts q))"

definition truediv_str :: "path \<Rightarrow> string \<Rightarrow> path" where
  "truediv_str p s = truediv p (parse_path s)"

definition parent :: "path \<Rightarrow> path" where
  "parent p = Path (path_root p) (butlast (path_parts p))"

section \<open>The file system\<close>

text \<open>
  The world the generators act on: a tree of directories and regular files keyed by
  resolved absolute location, the working directory, the process umask, the calendar year
  the system clock shows, and the log of the library calls that completed. The clock does
  not move during a run. There are no symbolic links, permission bits are stored but not
  enforced, and no resource limit is reached; the errors are the four \<open>OSError\<close>
  subclasses that remain. File names and contents are byte strings.
\<close>

type_synonym mode = "12 word"

datatype node = Dir mode | File string mode

datatype error = FileNotFoundError | FileExistsError | NotADirectoryError | IsADirectoryError

datatype call = MkdirCall path | TouchCall path | WriteCall path string | ChmodCall path mode

record world =
  files :: "string list \<rightharpoonup> node"
  cwd :: "string list"
  umask :: mode
  clock_year :: nat
  trace :: "call list"

text \<open>The root directory always exists.\<close>

definition node_at :: "(string list \<rightharpoonup> node) \<Rightarrow> string list \<Rightarrow> node option" where
  "node_at fs k = (if k = [] then Some (Dir 493) else fs k)"

text \<open>Walking down directory components from location \<open>k\<close>.\<close>

fun walk :: "(string list \<rightharpoonup> node) \<Rightarrow> string list \<Rightarrow> string list \<Rightarrow> error + string list" where
  "walk fs k [] = Inr k"
| "walk fs k (c # cs) =
     (if c = ''..'' then walk fs (butlast k) cs
      else (case fs (k @ [c]) of
              None \<Rightarrow> Inl FileNotFoundError
            | Some (File s m) \<Rightarrow> Inl NotADirectoryError
            | Some (Dir m) \<Rightarrow> walk fs (k @ [c]) cs))"

definition start :: "world \<Rightarrow> path \<Rightarrow> string list" where
  "start w p = (if path_root p = [] then cwd w else [])"

text \<open>
  The location a path names: every component but the last must be an existing directory;
  the last one may be absent.
\<close>

definition locate :: "world \<Rightarrow> path \<Rightarrow> error + string list" where
  "locate w p =
     (if path_parts p = [] then Inr (start w p)
      else (case walk (files w) (start w p) (butlast (path_parts p)) of
              Inl e \<Rightarrow> Inl e
            | Inr k \<Rightarrow> Inr (if last (path_parts p) = ''..'' then butlast k
                            else k @ [last (path_parts p)])))"

definition stat :: "world \<Rightarrow> path \<Rightarrow> node option" where
  "stat w p = (case locate w p of Inl e \<Rightarrow> None | Inr k \<Rightarrow> node_at (files w) k)"

definition is_dir :: "world \<Rightarrow> path \<Rightarrow> bool" where
  "is_dir w p = (case stat w p of Some (Dir m) \<Rightarrow> True | _ \<Rightarrow> False)"

subsection \<open>System calls\<close>

text \<open>
  \<open>os.mkdir\<close>, \<open>open(path, 'w')\<close> followed by the write, and \<open>os.chmod\<close>. Modes
  are written in decimal: \<open>0o777 = 511\<close>, \<open>0o755 = 493\<close>, \<open>0o666 = 438\<close>. A new
  entry gets the requested mode without the bits of the umask; an existing file keeps its
  mode when it is opened for writing.
\<close>

definition sys_mkdir :: "path \<Rightarrow> world \<Rightarrow> error + world" where
  "sys_mkdir p w =
     (case locate w p of
        Inl e \<Rightarrow> Inl e
      | Inr k \<Rightarrow>
          (case node_at (files w) k of
             Some n \<Rightarrow> Inl FileExistsError
           | None \<Rightarrow> Inr (w\<lparr>files := (files w)(k \<mapsto> Dir (and 511 (not (umask w))))\<rparr>)))"

definition sys_open_w :: "path \<Rightarrow> string \<Rightarrow> world \<Rightarrow> error + world" where
  "sys_open_w p s w =
     (case locate w p of
        Inl e \<Rightarrow> Inl e
      | Inr k \<Rightarrow>
          (case node_at (files w) k of
             Some (Dir m) \<Rightarrow> Inl IsADirectoryError
           | Some (File old m) \<Rightarrow> Inr (w\<lparr>files := (files w)(k \<mapsto> File s m)\<rparr>)
           | None \<Rightarrow> Inr (w\<lparr>files := (files w)(k \<mapsto> File s (and 438 (not (umask w))))\<rparr>)))"

definition sys_chmod :: "path \<Rightarrow> mode \<Rightarrow> world \<Rightarrow> error + world" where
  "sys_chmod p m w =
     (case locate w p of
        Inl e \<Rightarrow> Inl e
      | Inr k \<Rightarrow>
          (case node_at (files w) k of
             None \<Rightarrow> Inl FileNotFoundError
           | Some (Dir old) \<Rightarrow> Inr (w\<lparr>files := (files w)(k \<mapsto> Dir m)\<rparr>)
           | Some (File s old) \<Rightarrow> Inr (w\<lparr>files := (files w)(k \<mapsto> File s m)\<rparr>)))"

subsection \<open>\<open>Path.mkdir(parents=True, exist_ok=True)\<close> and \<open>Path.touch()\<close>\<close>

text \<open>
  \<open>Path.mkdir\<close> tries \<open>os.mkdir\<close>; on \<open>FileNotFoundError\<close> it makes the parent the
  same way and retries once without \<open>parents\<close>; any other error is swallowed when the
  path is a directory already.
\<close>

definition mkdir_exist_ok :: "path \<Rightarrow> world \<Rightarrow> error + world" where
  "mkdir_exist_ok p w =
     (case sys_mkdir p w of
        Inr w' \<Rightarrow> Inr w'
      | Inl FileNotFoundError \<Rightarrow> Inl FileNotFoundError
      | Inl e \<Rightarrow> (if is_dir w p then Inr w else Inl e))"

function mkdir_parents :: "path \<Rightarrow> world \<Rightarrow> error + world" where
  "mkdir_parents p w =
     (case sys_mkdir p w of
        Inr w' \<Rightarrow> Inr w'
      | Inl e \<Rightarrow>
          (if e = FileNotFoundError then
             (if parent p = p then Inl FileNotFoundError
              else (case mkdir_parents (parent p) w of
                      Inl e' \<Rightarrow> Inl e'
                    | Inr w1 \<Rightarrow> mkdir_exist_ok p w1))
           else (if is_dir w p then Inr w else Inl e)))"
  by pat_completeness auto
termination
proof (relation "measure (\<lambda>(p, w). length (path_parts p))")
  show "wf (measure (\<lambda>(p, w). length (path_parts p)))" by simp
next
  fix p :: path and w :: world and e :: error
  assume "parent p \<noteq> p"
  then have "path_parts p \<noteq> []"
    by (cases p) (auto simp: parent_def)
  then show "((parent p, w), (p, w)) \<in> measure (\<lambda>(p, w). length (path_parts p))"
    by (simp add: parent_def)
qed

declare mkdir_parents.simps [simp del]

text \<open>
  \<open>Path.touch()\<close>: \<open>os.utime\<close> succeeds on whatever exists and nothing changes;
  otherwise the file is created empty.
\<close>

definition touch :: "path \<Rightarrow> world \<Rightarrow> error + world" where
  "touch p w =
     (case locate w p of
        Inl e \<Rightarrow> Inl e
      | Inr k \<Rightarrow>
          (case node_at (files w) k of
             Some n \<Rightarrow> Inr w
           | None \<Rightarrow> Inr (w\<lparr>files := (files w)(k \<mapsto> File [] (and 438 (not (umask w))))\<rparr>)))"

subsection \<open>Logged calls and sequencing\<close>

fun exec :: "call \<Rightarrow> world \<Rightarrow> error + world" where
  "exec (MkdirCall p) w = mkdir_parents p w"
| "exec (TouchCall p) w = touch p w"
| "exec (WriteCall p s) w = sys_open_w p s w"
| "exec (ChmodCall p m) w = sys_chmod p m w"

definition perform :: "call \<Rightarrow> world \<Rightarrow> error + world" where
  "perform c w =
     (case exec c w of
        Inl e \<Rightarrow> Inl e
      | Inr w' \<Rightarrow> Inr (w'\<lparr>trace := trace w' @ [c]\<rparr>))"

definition path_mkdir :: "path \<Rightarrow> world \<Rightarrow> error + world" where
  "path_mkdir p = perform (MkdirCall p)"

definition path_touch :: "path \<Rightarrow> world \<Rightarrow> error + world" where
  "path_touch p = perform (TouchCall p)"

definition open_write :: "path \<Rightarrow> string \<Rightarrow> world \<Rightarrow> error + world" where
  "open_write p s = perform (WriteCall p s)"

definition os_chmod :: "path \<Rightarrow> mode \<Rightarrow> world \<Rightarrow> error + world" where
  "os_chmod p m = perform (ChmodCall p m)"

text \<open>Statements in sequence; an exception ends the run.\<close>

fun seq :: "(world \<Rightarrow> error + world) list \<Rightarrow> world \<Rightarrow> error + world" where
  "seq [] w = Inr w"
| "seq (a # as) w = (case a w of Inl e \<Rightarrow> Inl e | Inr w' \<Rightarrow> seq as w')"

section \<open>\<open>scaffold.py\<close>: the data-project generator\<close>

definition create_run_bash :: "path \<Rightarrow> world \<Rightarrow> error + world" where
  "create_run_bash project_path =
     seq [open_write (truediv_str project_path ''run.bash'') run_bash_content,
          os_chmod (truediv_str project_path ''run.bash'') 493]"

definition create_helpers :: "path \<Rightarrow> world \<Rightarrow> error + world" where
  "create_helpers project_path =
     open_write (truediv_str project_path ''helpers.py'') helpers_content"

definition create_license :: "path \<Rightarrow> world \<Rightarrow> error + world" where
  "create_license project_path w =
     (let current_year = clock_year w
      in open_write (truediv_str project_path ''LICENSE'') (license_content current_year) w)"

definition create_gitignore :: "path \<Rightarrow> world \<Rightarrow> error + world" where
  "create_gitignore project_path =
     open_write (truediv_str project_path ''.gitignore'') gitignore_content"

definition create_readme :: "path \<Rightarrow> world \<Rightarrow> error + world" where
  "create_readme project_path =
     open_write (truediv_str project_path ''README.md'') readme_content"

definition directories :: "string list" where
  "directories = [''data'', ''output'', ''logs'', ''bash'']"

definition create_project :: "string \<Rightarrow> path \<Rightarrow> world \<Rightarrow> error + world" where
  "create_project project_name base_path =
     (let project_path = truediv_str base_path project_name
      in seq
        [seq (map (\<lambda>dir_path. path_mkdir (truediv_str project_path dir_path)) directories),
         path_touch (truediv_str project_path ''config.py''),
         create_helpers project_path,
         create_gitignore project_path,
         create_license project_path,
         create_readme project_path,
         create_run_bash project_path,
         os_chmod (truediv_str project_path ''run.bash'') 493,
         open_write (truediv_str project_path ''.gitignore'') final_gitignore_content])"

section \<open>\<open>scaffold_package.py\<close>: the package-project generator\<close>

text \<open>
  The functions and contents whose names \<open>scaffold.py\<close> uses too carry the prefix
  \<open>pkg_\<close> here.
\<close>

definition create_init_file :: "path \<Rightarrow> string \<Rightarrow> world \<Rightarrow> error + world" where
  "create_init_file project_path package_name =
     open_write
       (truediv_str (truediv_str (truediv_str project_path ''src'') package_name) ''__init__.py'')
       (init_content package_name)"

definition create_base_file :: "path \<Rightarrow> string \<Rightarrow> world \<Rightarrow> error + world" where
  "create_base_file project_path package_name =
     open_write
       (truediv_str (truediv_str (truediv_str project_path ''src'') package_name) ''base.py'')
       base_content"

definition create_test_file :: "path \<Rightarrow> world \<Rightarrow> error + world" where
  "create_test_file project_path =
     open_write (truediv_str (truediv_str project_path ''tests'') ''test_module1.py'') test_content"

definition create_example_file :: "path \<Rightarrow> string \<Rightarrow> world \<Rightarrow> error + world" where
  "create_example_file project_path package_name =
     open_write (truediv_str (truediv_str project_path ''examples'') ''basic_usage.py'')
       example_content"

definition create_pyproject_toml :: "path \<Rightarrow> string \<Rightarrow> world \<Rightarrow> error + world" where
  "create_pyproject_toml project_path package_name =
     open_write (truediv_str project_path ''pyproject.toml'') (pyproject_content package_name)"

definition pkg_create_readme :: "path \<Rightarrow> string \<Rightarrow> world \<Rightarrow> error + world" where
  "pkg_create_readme project_path package_name =
     open_write (truediv_str project_path ''README.md'') (pkg_readme_content package_name)"

definition pkg_create_license :: "path \<Rightarrow> world \<Rightarrow> error + world" where
  "pkg_create_license project_path w =
     (let current_year = clock_year w
      in open_write (truediv_str project_path ''LICENSE'') (pkg_license_content current_year) w)"

definition pkg_create_gitignore :: "path \<Rightarrow> world \<Rightarrow> error + world" where
  "pkg_create_gitignore project_path =
     open_write (truediv_str project_path ''.gitignore'') pkg_gitignore_content"

definition pkg_directories :: "string \<Rightarrow> path list" where
  "pkg_directories project_name =
     [truediv_str (parse_path ''src'') project_name,
      truediv_str (parse_path ''tests'') ''test_data'',
      parse_path ''examples'']"

definition create_project_structure :: "string \<Rightarrow> path \<Rightarrow> world \<Rightarrow> error + world" where
  "create_project_structure project_name base_path =
     (let project_path = truediv_str base_path project_name
      in seq
        [seq (map (\<lambda>dir_path. path_mkdir (truediv project_path dir_path))
               (pkg_directories project_name)),
         create_init_file project_path project_name,
         create_base_file project_path project_name,
         create_test_file project_path,
         create_example_file project_path project_name,
         create_pyproject_toml project_path project_name,
         pkg_create_readme project_path project_name,
         pkg_create_license project_path,
         pkg_create_gitignore project_path])"

section \<open>Observations on a world\<close>

text \<open>\<open>Path.read_text()\<close> and the permission bits of a regular file.\<close>

definition read_text :: "world \<Rightarrow> path \<Rightarrow> string option" where
  "read_text w p = (case stat w p of Some (File s m) \<Rightarrow> Some s | _ \<Rightarrow> None)"

definition file_mode :: "world \<Rightarrow> path \<Rightarrow> mode option" where
  "file_mode w p = (case stat w p of Some (File s m) \<Rightarrow> Some m | _ \<Rightarrow> None)"

text \<open>
  The lines of a text (\<open>str.split\<close>), and the names a gitignore text excepts from
  being ignored: its lines that start with \<open>!\<close>, without the mark.
\<close>

definition lines_of :: "string \<Rightarrow> string list" where
  "lines_of s = split_sep CHR 0x0A s"

definition excepted :: "string \<Rightarrow> string list" where
  "excepted s = map tl (filter (\<lambda>l. startswith l ''!'') (lines_of s))"

text \<open>Reading a decimal numeral back (Python's \<open>int(s)\<close> on a string of digits).\<close>

definition nat_of_decimal :: "string \<Rightarrow> nat" where
  "nat_of_decimal s = foldl (\<lambda>a c. 10 * a + (of_char c - 48)) 0 s"

text \<open>The calls a run added to the log, and what it left, when it completed.\<close>

definition new_calls :: "world \<Rightarrow> world \<Rightarrow> call list" where
  "new_calls w w' = drop (length (trace w)) (trace w')"


definition result_text :: "error + world \<Rightarrow> path \<Rightarrow> string option" where
  "result_text r p = (case r of Inl e \<Rightarrow> None | Inr w' \<Rightarrow> read_text w' p)"

definition result_is_dir :: "error + world \<Rightarrow> path \<Rightarrow> bool" where
  "result_is_dir r p = (case r of Inl e \<Rightarrow> False | Inr w' \<Rightarrow> is_dir w' p)"

definition succeeds :: "error + world \<Rightarrow> bool" where
  "succeeds r = (case r of Inl e \<Rightarrow> False | Inr w' \<Rightarrow> True)"

fun target :: "call \<Rightarrow> path" where
  "target (MkdirCall p) = p"
| "target (TouchCall p) = p"
| "target (WriteCall p s) = p"
| "target (ChmodCall p m) = p"

fun mkdir_targets :: "call list \<Rightarrow> path list" where
  "mkdir_targets [] = []"
| "mkdir_targets (MkdirCall p # cs) = p # mkdir_targets cs"
| "mkdir_targets (c # cs) = mkdir_targets cs"

text \<open>\<open>within d q\<close>: the path \<open>d\<close> is \<open>q\<close> or one of its ancestors.\<close>

definition within :: "path \<Rightarrow> path \<Rightarrow> bool" where
  "within d q =
     (path_root d = path_root q \<and> take (length (path_parts d)) (path_parts q) = path_parts d)"

text \<open>
  The path itself and its ancestors, from the bare root down; \<open>made_by w targets k\<close>:
  the location \<open>k\<close> is that of one of the \<open>targets\<close> or of an ancestor of one.
\<close>

definition ancestors_or_self :: "path \<Rightarrow> path list" where
  "ancestors_or_self p =
     map (\<lambda>i. Path (path_root p) (take i (path_parts p))) [0..<Suc (length (path_parts p))]"

definition made_by :: "world \<Rightarrow> path list \<Rightarrow> string list \<Rightarrow> bool" where
  "made_by w targets k =
     list_ex (\<lambda>q. locate w q = Inr k) (concat (map ancestors_or_self targets))"



section \<open>Runs as lists of calls\<close>

text \<open>
  Neither generator branches on what it finds: a run is a fixed list of calls, performed in
  order until one fails. \<open>data_calls\<close> and \<open>pkg_calls\<close> are those lists, for a project
  path and the year the clock shows; the lemmas \<open>create_project_run\<close> and
  \<open>create_project_structure_run\<close> derive them from the generators.
\<close>

definition run_calls :: "call list \<Rightarrow> world \<Rightarrow> error + world" where
  "run_calls cs = seq (map perform cs)"

definition data_calls :: "path \<Rightarrow> nat \<Rightarrow> call list" where
  "data_calls r y =
     [MkdirCall (truediv_str r ''data''),
      MkdirCall (truediv_str r ''output''),
      MkdirCall (truediv_str r ''logs''),
      MkdirCall (truediv_str r ''bash''),
      TouchCall (truediv_str r ''config.py''),
      WriteCall (truediv_str r ''helpers.py'') helpers_content,
      WriteCall (truediv_str r ''.gitignore'') gitignore_content,
      WriteCall (truediv_str r ''LICENSE'') (license_content y),
      WriteCall (truediv_str r ''README.md'') readme_content,
      WriteCall (truediv_str r ''run.bash'') run_bash_content,
      ChmodCall (truediv_str r ''run.bash'') 493,
      ChmodCall (truediv_str r ''run.bash'') 493,
      WriteCall (truediv_str r ''.gitignore'') final_gitignore_content]"

definition pkg_calls :: "path \<Rightarrow> string \<Rightarrow> nat \<Rightarrow> call list" where
  "pkg_calls r n y =
     [MkdirCall (truediv r (truediv_str (parse_path ''src'') n)),
      MkdirCall (truediv r (truediv_str (parse_path ''tests'') ''test_data'')),
      MkdirCall (truediv r (parse_path ''examples'')),
      WriteCall (truediv_str (truediv_str (truediv_str r ''src'') n) ''__init__.py'')
        (init_content n),
      WriteCall (truediv_str (truediv_str (truediv_str r ''src'') n) ''base.py'') base_content,
      WriteCall (truediv_str (truediv_str r ''tests'') ''test_module1.py'') test_content,
      WriteCall (truediv_str (truediv_str r ''examples'') ''basic_usage.py'') example_content,
      WriteCall (truediv_str r ''pyproject.toml'') (pyproject_content n),
      WriteCall (truediv_str r ''README.md'') (pkg_readme_content n),
      WriteCall (truediv_str r ''LICENSE'') (pkg_license_content y),
      WriteCall (truediv_str r ''.gitignore'') pkg_gitignore_content]"

section \<open>Relations between worlds\<close>

text \<open>
  \<open>grows\<close>: nothing that existed changed. \<open>evolves\<close>: every directory is still a
  directory and every file still a file (contents and modes may differ). Both keep the
  working directory, the umask and the clock.
\<close>

definition same_env :: "world \<Rightarrow> world \<Rightarrow> bool" where
  "same_env w w' = (cwd w' = cwd w \<and> umask w' = umask w \<and> clock_year w' = clock_year w)"

definition dirs_kept :: "(string list \<rightharpoonup> node) \<Rightarrow> (string list \<rightharpoonup> node) \<Rightarrow> bool" where
  "dirs_kept fs fs' = (\<forall>k m. k \<noteq> [] \<longrightarrow> fs k = Some (Dir m) \<longrightarrow> (\<exists>m'. fs' k = Some (Dir m')))"

definition files_kept :: "(string list \<rightharpoonup> node) \<Rightarrow> (string list \<rightharpoonup> node) \<Rightarrow> bool" where
  "files_kept fs fs' =
     (\<forall>k s m. k \<noteq> [] \<longrightarrow> fs k = Some (File s m) \<longrightarrow> (\<exists>s' m'. fs' k = Some (File s' m')))"

definition evolves :: "world \<Rightarrow> world \<Rightarrow> bool" where
  "evolves w w' =
     (same_env w w' \<and> dirs_kept (files w) (files w') \<and> files_kept (files w) (files w'))"

definition grows :: "world \<Rightarrow> world \<Rightarrow> bool" where
  "grows w w' = (same_env w w' \<and> trace w' = trace w \<and> files w \<subseteq>\<^sub>m files w')"

text \<open>
  \<open>new_dirs w w' Q\<close>: every directory of \<open>w'\<close> below the root that was not a directory
  in \<open>w\<close> is at the location of a path in \<open>Q\<close>. \<open>call_dirs c\<close> holds the paths at
  which the call \<open>c\<close> may create a directory.
\<close>

definition new_dirs :: "world \<Rightarrow> world \<Rightarrow> path set \<Rightarrow> bool" where
  "new_dirs w w' Q =
     (\<forall>k m. k \<noteq> [] \<longrightarrow> files w' k = Some (Dir m) \<longrightarrow>
        (\<exists>m0. files w k = Some (Dir m0)) \<or> (\<exists>q\<in>Q. locate w' q = Inr k))"

fun call_dirs :: "call \<Rightarrow> path set" where
  "call_dirs (MkdirCall p) = set (ancestors_or_self p)"
| "call_dirs c = {}"

text \<open>
  Two paths whose last components are different file names never name the same location.
  \<open>apart c p\<close>: the call \<open>c\<close> cannot change what is at \<open>p\<close>.
\<close>

definition differs :: "path \<Rightarrow> path \<Rightarrow> bool" where
  "differs q p =
     (path_parts q \<noteq> [] \<and> path_parts p \<noteq> [] \<and> last (path_parts q) \<noteq> ''..'' \<and>
      last (path_parts p) \<noteq> ''..'' \<and> last (path_parts q) \<noteq> last (path_parts p))"

fun apart :: "call \<Rightarrow> path \<Rightarrow> bool" where
  "apart (MkdirCall q) p = True"
| "apart (TouchCall q) p = True"
| "apart (WriteCall q s) p = differs q p"
| "apart (ChmodCall q m) p = differs q p"

text \<open>
  \<open>settled w c\<close>: the world already is as the call \<open>c\<close> would leave it.
  \<open>keeps c q\<close>: writing the file \<open>q\<close> leaves \<open>c\<close> settled.
\<close>

fun settled :: "world \<Rightarrow> call \<Rightarrow> bool" where
  "settled w (MkdirCall p) = is_dir w p"
| "settled w (TouchCall p) = (stat w p \<noteq> None)"
| "settled w (WriteCall p s) = (read_text w p = Some s)"
| "settled w (ChmodCall p m) = (file_mode w p = Some m)"

fun keeps :: "call \<Rightarrow> path \<Rightarrow> bool" where
  "keeps (MkdirCall p) q = True"
| "keeps (TouchCall p) q = True"
| "keeps (WriteCall p s) q = differs q p"
| "keeps (ChmodCall p m) q = True"

section \<open>Example worlds\<close>

text \<open>
  \<open>fresh_world\<close> holds the directory \<open>/tmp\<close> and nothing else. In \<open>used_world\<close> the
  data project \<open>/tmp/demo\<close> and the package project \<open>/tmp/mypkg\<close> exist already, with
  files of their own where the generators will write.
\<close>

definition tmp :: path where
  "tmp = Path ''/'' [''tmp'']"

definition fresh_world :: world where
  "fresh_world =
     \<lparr>files = [[''tmp''] \<mapsto> Dir 493],
      cwd = [''tmp''], umask = 18, clock_year = 2026, trace = []\<rparr>"

definition used_world :: world where
  "used_world =
     \<lparr>files =
        [[''tmp''] \<mapsto> Dir 493,
         [''tmp'', ''demo''] \<mapsto> Dir 493,
         [''tmp'', ''demo'', ''data''] \<mapsto> Dir 448,
         [''tmp'', ''demo'', ''config.py''] \<mapsto> File ''DEBUG = True'' 384,
         [''tmp'', ''demo'', ''helpers.py''] \<mapsto> File ''import sys'' 420,
         [''tmp'', ''demo'', ''.gitignore''] \<mapsto> File ''*.log'' 420,
         [''tmp'', ''demo'', ''LICENSE''] \<mapsto> File ''All rights reserved.'' 292,
         [''tmp'', ''demo'', ''README.md''] \<mapsto> File ''# Demo'' 420,
         [''tmp'', ''demo'', ''run.bash''] \<mapsto> File ''exit 1'' 420,
         [''tmp'', ''mypkg''] \<mapsto> Dir 493,
         [''tmp'', ''mypkg'', ''tests''] \<mapsto> Dir 493,
         [''tmp'', ''mypkg'', ''tests'', ''test_module1.py''] \<mapsto> File ''assert False'' 420,
         [''tmp'', ''mypkg'', ''README.md''] \<mapsto> File ''# Old'' 420,
         [''tmp'', ''mypkg'', ''LICENSE''] \<mapsto> File ''All rights reserved.'' 420],
      cwd = [''tmp''], umask = 18, clock_year = 2031, trace = [MkdirCall tmp]\<rparr>"

section \<open>Properties of the file system and of the runs\<close>

subsection \<open>Sequencing\<close>

lemma seq_append:
  "seq (as @ bs) w = (case seq as w of Inl e \<Rightarrow> Inl e | Inr w' \<Rightarrow> seq bs w')"
  by (induction as arbitrary: w) (auto split: sum.splits)

lemma seq_seq: "seq (seq as # bs) w = seq (as @ bs) w"
  by (simp add: seq_append)

lemma run_calls_Nil [simp]: "run_calls [] w = Inr w"
  by (simp add: run_calls_def)

lemma run_calls_Cons:
  "run_calls (c # cs) w = (case perform c w of Inl e \<Rightarrow> Inl e | Inr w' \<Rightarrow> run_calls cs w')"
  by (simp add: run_calls_def split: sum.splits)

lemma run_calls_append:
  "run_calls (as @ bs) w = (case run_calls as w of Inl e \<Rightarrow> Inl e | Inr w' \<Rightarrow> run_calls bs w')"
  by (simp add: run_calls_def seq_append split: sum.splits)

subsection \<open>Resolution\<close>

text \<open>
  A path resolves to the same location as long as the directories on its way stay
  directories.
\<close>

lemma walk_dirs_kept:
  "walk fs k cs = Inr k' \<Longrightarrow> dirs_kept fs fs' \<Longrightarrow> walk fs' k cs = Inr k'"
proof (induction fs k cs rule: walk.induct)
  case (1 fs k)
  then show ?case by simp
next
  case (2 fs k c cs)
  show ?case
  proof (cases "c = ''..''")
    case True
    with 2 show ?thesis by simp
  next
    case False
    with "2.prems" obtain m where m: "fs (k @ [c]) = Some (Dir m)"
      by (auto split: option.splits node.splits)
    with "2.prems" obtain m' where m': "fs' (k @ [c]) = Some (Dir m')"
      by (auto simp: dirs_kept_def)
    from False m "2.prems" have "walk fs (k @ [c]) cs = Inr k'" by simp
    with "2.IH"(2) [OF False m] "2.prems" have "walk fs' (k @ [c]) cs = Inr k'" by simp
    with False m' show ?thesis by simp
  qed
qed

lemma locate_dirs_kept:
  "locate w p = Inr k \<Longrightarrow> dirs_kept (files w) (files w') \<Longrightarrow> cwd w' = cwd w \<Longrightarrow> locate w' p = Inr k"
  by (auto simp: locate_def start_def split: if_splits sum.splits dest: walk_dirs_kept)

subsection \<open>Growing worlds\<close>

text \<open>
  \<open>mkdir\<close> and \<open>touch\<close> only add entries.
\<close>

lemma grows_refl [simp]: "grows w w"
  by (simp add: grows_def same_env_def)

lemma grows_trans: "grows w w1 \<Longrightarrow> grows w1 w2 \<Longrightarrow> grows w w2"
  by (auto simp: grows_def same_env_def intro: map_le_trans)

lemma map_le_dirs_kept: "fs \<subseteq>\<^sub>m fs' \<Longrightarrow> dirs_kept fs fs'"
  by (auto simp: dirs_kept_def map_le_def dom_def)

lemma node_at_None: "node_at fs k = None \<Longrightarrow> k \<noteq> [] \<and> fs k = None"
  by (auto simp: node_at_def split: if_splits)

lemma node_at_upd:
  "k \<noteq> [] \<Longrightarrow> node_at (fs(k \<mapsto> n)) k' = (if k' = k then Some n else node_at fs k')"
  by (simp add: node_at_def)

lemma sys_mkdir_grows: "sys_mkdir p w = Inr w' \<Longrightarrow> grows w w'"
  by (auto simp: sys_mkdir_def grows_def same_env_def map_le_def node_at_def
           split: sum.splits option.splits if_splits)

lemma mkdir_exist_ok_grows: "mkdir_exist_ok p w = Inr w' \<Longrightarrow> grows w w'"
  by (auto simp: mkdir_exist_ok_def split: sum.splits error.splits if_splits
           dest: sys_mkdir_grows)

lemma mkdir_parents_cases:
  assumes "mkdir_parents p w = Inr w'"
  obtains (direct) "sys_mkdir p w = Inr w'"
  | (present) e where "sys_mkdir p w = Inl e" and "e \<noteq> FileNotFoundError"
      and "is_dir w p" and "w' = w"
  | (parents) w1 where "sys_mkdir p w = Inl FileNotFoundError" and "parent p \<noteq> p"
      and "mkdir_parents (parent p) w = Inr w1" and "mkdir_exist_ok p w1 = Inr w'"
  using assms by (subst (asm) mkdir_parents.simps) (auto split: sum.splits if_splits)

lemma mkdir_parents_grows: "mkdir_parents p w = Inr w' \<Longrightarrow> grows w w'"
proof (induction p w arbitrary: w' rule: mkdir_parents.induct)
  case (1 p w)
  from "1.prems" show ?case
  proof (cases rule: mkdir_parents_cases)
    case direct
    then show ?thesis by (rule sys_mkdir_grows)
  next
    case (present e)
    then show ?thesis by simp
  next
    case (parents w1)
    from "1.IH" [OF parents(1) refl parents(2) parents(3)] have "grows w w1" .
    with parents(4) show ?thesis by (blast intro: grows_trans mkdir_exist_ok_grows)
  qed
qed

lemma touch_grows: "touch p w = Inr w' \<Longrightarrow> grows w w'"
  by (auto simp: touch_def grows_def same_env_def map_le_def node_at_def
           split: sum.splits option.splits if_splits)

lemma sys_mkdir_is_dir: "sys_mkdir p w = Inr w' \<Longrightarrow> is_dir w' p"
proof -
  assume a: "sys_mkdir p w = Inr w'"
  then obtain k where k: "locate w p = Inr k" and n: "node_at (files w) k = None"
    and w': "w' = w\<lparr>files := (files w)(k \<mapsto> Dir (and 511 (not (umask w))))\<rparr>"
    by (auto simp: sys_mkdir_def split: sum.splits option.splits)
  from a have "grows w w'" by (rule sys_mkdir_grows)
  then have "locate w' p = Inr k"
    using k by (auto simp: grows_def same_env_def intro: locate_dirs_kept map_le_dirs_kept)
  moreover from n have "k \<noteq> []" by (auto dest: node_at_None)
  ultimately show ?thesis
    by (simp add: is_dir_def stat_def w' node_at_upd)
qed

lemma mkdir_exist_ok_is_dir: "mkdir_exist_ok p w = Inr w' \<Longrightarrow> is_dir w' p"
  by (auto simp: mkdir_exist_ok_def split: sum.splits error.splits if_splits
           dest: sys_mkdir_is_dir)

lemma mkdir_parents_is_dir: "mkdir_parents p w = Inr w' \<Longrightarrow> is_dir w' p"
  by (erule mkdir_parents_cases) (auto dest: sys_mkdir_is_dir mkdir_exist_ok_is_dir)

subsection \<open>Evolving worlds\<close>

text \<open>
  No call removes an entry or turns a directory into a file or a file into a directory.
\<close>

lemma evolves_refl [simp]: "evolves w w"
  by (simp add: evolves_def same_env_def dirs_kept_def files_kept_def)

lemma evolves_trans: "evolves w w1 \<Longrightarrow> evolves w1 w2 \<Longrightarrow> evolves w w2"
  unfolding evolves_def same_env_def dirs_kept_def files_kept_def
  by (intro conjI allI impI; metis)

lemma grows_evolves: "grows w w' \<Longrightarrow> evolves w w'"
  by (auto simp: grows_def evolves_def dirs_kept_def files_kept_def map_le_def dom_def)

lemma locate_evolves: "locate w p = Inr k \<Longrightarrow> evolves w w' \<Longrightarrow> locate w' p = Inr k"
  by (auto simp: evolves_def same_env_def intro: locate_dirs_kept)

lemma sys_open_w_cases:
  assumes "sys_open_w p s w = Inr w'"
  obtains (created) k where "locate w p = Inr k" and "k \<noteq> []" and "files w k = None"
      and "w' = w\<lparr>files := (files w)(k \<mapsto> File s (and 438 (not (umask w))))\<rparr>"
  | (truncated) k old m where "locate w p = Inr k" and "k \<noteq> []"
      and "files w k = Some (File old m)"
      and "w' = w\<lparr>files := (files w)(k \<mapsto> File s m)\<rparr>"
  using assms
  by (auto simp: sys_open_w_def node_at_def
           split: sum.splits option.splits node.splits if_splits)

lemma sys_chmod_cases:
  assumes "sys_chmod p m w = Inr w'"
  obtains (on_dir) k old where "locate w p = Inr k" and "node_at (files w) k = Some (Dir old)"
      and "w' = w\<lparr>files := (files w)(k \<mapsto> Dir m)\<rparr>"
  | (on_file) k s old where "locate w p = Inr k" and "k \<noteq> []"
      and "files w k = Some (File s old)"
      and "w' = w\<lparr>files := (files w)(k \<mapsto> File s m)\<rparr>"
  using assms
  by (auto simp: sys_chmod_def node_at_def
           split: sum.splits option.splits node.splits if_splits)

lemma sys_open_w_evolves: "sys_open_w p s w = Inr w' \<Longrightarrow> evolves w w' \<and> trace w' = trace w"
  by (erule sys_open_w_cases)
     (auto simp: evolves_def same_env_def dirs_kept_def files_kept_def)

lemma sys_chmod_evolves: "sys_chmod p m w = Inr w' \<Longrightarrow> evolves w w' \<and> trace w' = trace w"
  by (erule sys_chmod_cases)
     (auto simp: evolves_def same_env_def dirs_kept_def files_kept_def node_at_def
           split: if_splits)

lemma exec_evolves: "exec c w = Inr w' \<Longrightarrow> evolves w w' \<and> trace w' = trace w"
proof (cases c)
  case (MkdirCall p)
  assume "exec c w = Inr w'"
  with MkdirCall have "grows w w'" by (simp add: mkdir_parents_grows)
  then show ?thesis by (simp add: grows_evolves) (simp add: grows_def)
next
  case (TouchCall p)
  assume "exec c w = Inr w'"
  with TouchCall have "grows w w'" by (simp add: touch_grows)
  then show ?thesis by (simp add: grows_evolves) (simp add: grows_def)
next
  case (WriteCall p s)
  assume "exec c w = Inr w'"
  with WriteCall show ?thesis by (simp add: sys_open_w_evolves)
next
  case (ChmodCall p m)
  assume "exec c w = Inr w'"
  with ChmodCall show ?thesis by (simp add: sys_chmod_evolves)
qed

lemma locate_trace_upd [simp]: "locate (w\<lparr>trace := t\<rparr>) p = locate w p"
  by (simp add: locate_def start_def)

lemma stat_trace_upd [simp]: "stat (w\<lparr>trace := t\<rparr>) p = stat w p"
  by (simp add: stat_def split: sum.splits)

lemma is_dir_trace_upd [simp]: "is_dir (w\<lparr>trace := t\<rparr>) p = is_dir w p"
  by (simp add: is_dir_def)

lemma evolves_trace_upd [simp]: "evolves w (w'\<lparr>trace := t\<rparr>) = evolves w w'"
  by (simp add: evolves_def same_env_def)

lemma perform_Inr:
  "perform c w = Inr w' \<longleftrightarrow> (\<exists>w1. exec c w = Inr w1 \<and> w' = w1\<lparr>trace := trace w1 @ [c]\<rparr>)"
  by (auto simp: perform_def split: sum.splits)

lemma perform_evolves:
  "perform c w = Inr w' \<Longrightarrow> evolves w w' \<and> trace w' = trace w @ [c]"
  by (auto simp: perform_Inr dest: exec_evolves)

lemma run_calls_evolves:
  "run_calls cs w = Inr w' \<Longrightarrow> evolves w w' \<and> trace w' = trace w @ cs"
proof (induction cs arbitrary: w)
  case Nil
  then show ?case by simp
next
  case (Cons c cs)
  then obtain w1 where 1: "perform c w = Inr w1" and 2: "run_calls cs w1 = Inr w'"
    by (auto simp: run_calls_Cons split: sum.splits)
  from perform_evolves [OF 1] Cons.IH [OF 2] show ?case
    by (auto intro: evolves_trans)
qed

subsection \<open>Calls on other file names\<close>

text \<open>
  A write or a \<open>chmod\<close> changes one location; a path with another file name is not
  affected by it.
\<close>

lemma locate_last:
  "locate w p = Inr k \<Longrightarrow> path_parts p \<noteq> [] \<Longrightarrow> last (path_parts p) \<noteq> ''..'' \<Longrightarrow>
   k \<noteq> [] \<and> last k = last (path_parts p)"
  by (auto simp: locate_def split: sum.splits if_splits)

lemma differs_keys:
  "differs q p \<Longrightarrow> locate w q = Inr kq \<Longrightarrow> locate w p = Inr kp \<Longrightarrow> kp \<noteq> kq"
  by (auto simp: differs_def dest!: locate_last)

lemma stat_SomeD: "stat w p = Some n \<Longrightarrow> \<exists>k. locate w p = Inr k \<and> node_at (files w) k = Some n"
  by (auto simp: stat_def split: sum.splits)

lemma stat_located: "locate w p = Inr k \<Longrightarrow> stat w p = node_at (files w) k"
  by (simp add: stat_def)

lemma grows_stat: "grows w w' \<Longrightarrow> stat w p = Some n \<Longrightarrow> stat w' p = Some n"
proof -
  assume g: "grows w w'" and st: "stat w p = Some n"
  from st obtain k where k: "locate w p = Inr k" and n: "node_at (files w) k = Some n"
    by (auto dest: stat_SomeD)
  from g k have "locate w' p = Inr k" by (blast intro: locate_evolves grows_evolves)
  moreover from g n have "node_at (files w') k = Some n"
    by (auto simp: node_at_def grows_def map_le_def dom_def split: if_splits)
  ultimately show ?thesis by (simp add: stat_located)
qed

lemma sys_open_w_apart:
  assumes "sys_open_w q s w = Inr w'" and "stat w p = Some n" and "differs q p"
  shows "stat w' p = Some n"
proof -
  from assms(2) obtain kp where kp: "locate w p = Inr kp" and n: "node_at (files w) kp = Some n"
    by (auto dest: stat_SomeD)
  from assms(1) have "evolves w w'" by (simp add: sys_open_w_evolves)
  with kp have kp': "locate w' p = Inr kp" by (rule locate_evolves)
  from assms(1) obtain kq x where kq: "locate w q = Inr kq" and "kq \<noteq> []"
    and w': "w' = w\<lparr>files := (files w)(kq \<mapsto> x)\<rparr>"
    by (auto elim: sys_open_w_cases)
  moreover from assms(3) kq kp have "kp \<noteq> kq" by (rule differs_keys)
  ultimately have "node_at (files w') kp = node_at (files w) kp"
    by (simp add: node_at_upd)
  with kp' n show ?thesis by (simp add: stat_located)
qed

lemma sys_chmod_apart:
  assumes "sys_chmod q m w = Inr w'" and "stat w p = Some n" and "differs q p"
  shows "stat w' p = Some n"
proof -
  from assms(2) obtain kp where kp: "locate w p = Inr kp" and n: "node_at (files w) kp = Some n"
    by (auto dest: stat_SomeD)
  from assms(1) have "evolves w w'" by (simp add: sys_chmod_evolves)
  with kp have kp': "locate w' p = Inr kp" by (rule locate_evolves)
  from assms(1) obtain kq x where kq: "locate w q = Inr kq"
    and w': "w' = w\<lparr>files := (files w)(kq \<mapsto> x)\<rparr>"
    by (auto elim: sys_chmod_cases)
  moreover from assms(3) kq kp have "kp \<noteq> kq" by (rule differs_keys)
  ultimately have "node_at (files w') kp = node_at (files w) kp"
    by (simp add: node_at_def)
  with kp' n show ?thesis by (simp add: stat_located)
qed

lemma exec_apart:
  "exec c w = Inr w' \<Longrightarrow> stat w p = Some n \<Longrightarrow> apart c p \<Longrightarrow> stat w' p = Some n"
  by (cases c)
     (auto intro: grows_stat mkdir_parents_grows touch_grows sys_open_w_apart sys_chmod_apart)

lemma perform_apart:
  "perform c w = Inr w' \<Longrightarrow> stat w p = Some n \<Longrightarrow> apart c p \<Longrightarrow> stat w' p = Some n"
  by (auto simp: perform_Inr dest: exec_apart)

lemma run_calls_apart:
  "run_calls cs w = Inr w' \<Longrightarrow> stat w p = Some n \<Longrightarrow> list_all (\<lambda>c. apart c p) cs \<Longrightarrow>
   stat w' p = Some n"
proof (induction cs arbitrary: w)
  case Nil
  then show ?case by simp
next
  case (Cons c cs)
  then obtain w1 where 1: "perform c w = Inr w1" and 2: "run_calls cs w1 = Inr w'"
    by (auto simp: run_calls_Cons split: sum.splits)
  from 1 Cons.prems have "stat w1 p = Some n" by (auto intro: perform_apart)
  with 2 Cons.prems Cons.IH show ?case by simp
qed

subsection \<open>What a call leaves at its own path\<close>

lemma sys_open_w_stat:
  assumes "sys_open_w p s w = Inr w'"
  shows "stat w' p = Some (File s (case stat w p of Some (File old m) \<Rightarrow> m
                                   | _ \<Rightarrow> and 438 (not (umask w))))"
proof -
  from assms have ev: "evolves w w'" by (simp add: sys_open_w_evolves)
  from assms show ?thesis
  proof (cases rule: sys_open_w_cases)
    case (created k)
    from created(1) ev have "locate w' p = Inr k" by (rule locate_evolves)
    with created show ?thesis by (simp add: stat_located node_at_def)
  next
    case (truncated k old m)
    from truncated(1) ev have "locate w' p = Inr k" by (rule locate_evolves)
    with truncated show ?thesis by (simp add: stat_located node_at_def)
  qed
qed

lemma sys_chmod_stat:
  assumes "sys_chmod p m w = Inr w'" and "stat w p = Some (File s m0)"
  shows "stat w' p = Some (File s m)"
proof -
  from assms(1) have ev: "evolves w w'" by (simp add: sys_chmod_evolves)
  from assms(1) show ?thesis
  proof (cases rule: sys_chmod_cases)
    case (on_dir k old)
    with assms(2) show ?thesis by (simp add: stat_located)
  next
    case (on_file k s' old)
    from on_file(1) ev have "locate w' p = Inr k" by (rule locate_evolves)
    with on_file assms(2) show ?thesis by (simp add: stat_located node_at_def)
  qed
qed

lemma touch_stat:
  assumes "touch p w = Inr w'"
  shows "stat w' p = (case stat w p of Some n \<Rightarrow> Some n
                     | None \<Rightarrow> Some (File [] (and 438 (not (umask w)))))"
proof -
  from assms have ev: "evolves w w'" by (simp add: touch_grows grows_evolves)
  from assms obtain k where k: "locate w p = Inr k"
    by (auto simp: touch_def split: sum.splits)
  from k ev have "locate w' p = Inr k" by (rule locate_evolves)
  with assms k show ?thesis
    by (auto simp: touch_def stat_located node_at_def split: option.splits if_splits)
qed

subsection \<open>The generators as lists of calls\<close>

lemma run_calls_Cons_Inr:
  "run_calls (c # cs) w = Inr w' \<longleftrightarrow> (\<exists>w1. perform c w = Inr w1 \<and> run_calls cs w1 = Inr w')"
  by (auto simp: run_calls_Cons split: sum.splits)

lemma perform_clock: "perform c w = Inr w' \<Longrightarrow> clock_year w' = clock_year w"
  by (auto dest!: perform_evolves simp: evolves_def same_env_def)

lemmas data_defs =
  create_project_def create_run_bash_def create_helpers_def create_license_def
  create_gitignore_def create_readme_def directories_def
  path_mkdir_def path_touch_def open_write_def os_chmod_def

lemma seq_perform_cong:
  "(\<And>w1. clock_year w1 = clock_year w \<Longrightarrow> seq as w1 = seq bs w1) \<Longrightarrow>
   seq (perform c # as) w = seq (perform c # bs) w"
  by (auto split: sum.splits dest: perform_clock)

lemma create_project_run:
  "create_project n b w = run_calls (data_calls (truediv_str b n) (clock_year w)) w"
  unfolding data_defs data_calls_def run_calls_def Let_def list.map seq_seq append.simps
  apply (intro seq_perform_cong)
  apply (simp split: sum.splits)
  done

lemma create_project_Inr:
  "create_project n b w = Inr w' \<longleftrightarrow>
   run_calls (data_calls (truediv_str b n) (clock_year w)) w = Inr w'"
  by (simp add: create_project_run)

lemmas pkg_defs =
  create_project_structure_def create_init_file_def create_base_file_def
  create_test_file_def create_example_file_def create_pyproject_toml_def
  pkg_create_readme_def pkg_create_gitignore_def pkg_directories_def
  path_mkdir_def open_write_def

lemma create_project_structure_run:
  "create_project_structure n b w = run_calls (pkg_calls (truediv_str b n) n (clock_year w)) w"
  unfolding pkg_defs pkg_create_license_def pkg_calls_def run_calls_def Let_def list.map seq_seq
    append.simps
  apply (intro seq_perform_cong)
  apply (simp split: sum.splits)
  done

lemma create_project_structure_Inr:
  "create_project_structure n b w = Inr w' \<longleftrightarrow>
   run_calls (pkg_calls (truediv_str b n) n (clock_year w)) w = Inr w'"
  by (simp add: create_project_structure_run)

subsection \<open>Joining with a plain file name\<close>

lemma split_sep_plain: "sep \<notin> set s \<Longrightarrow> split_sep sep s = [s]"
  by (induction s) auto

lemma parse_path_plain:
  "CHR ''/'' \<notin> set s \<Longrightarrow> s \<noteq> [] \<Longrightarrow> s \<noteq> ''.'' \<Longrightarrow> parse_path s = Path [] [s]"
  by (cases s) (auto simp: parse_path_def splitroot_def split_sep_plain)

lemma truediv_str_plain:
  "CHR ''/'' \<notin> set s \<Longrightarrow> s \<noteq> [] \<Longrightarrow> s \<noteq> ''.'' \<Longrightarrow>
   truediv_str p s = Path (path_root p) (path_parts p @ [s])"
  by (simp add: truediv_str_def truediv_def parse_path_plain)

lemma truediv_str_empty: "truediv_str p [] = p"
  by (simp add: truediv_str_def truediv_def parse_path_def splitroot_def)

lemma last_parts_truediv_str:
  "CHR ''/'' \<notin> set s \<Longrightarrow> s \<noteq> [] \<Longrightarrow> s \<noteq> ''.'' \<Longrightarrow>
   path_parts (truediv_str p s) \<noteq> [] \<and> last (path_parts (truediv_str p s)) = s"
  by (simp add: truediv_str_plain)

subsection \<open>The state after a run\<close>

lemma run_calls_split:
  assumes "run_calls cs w = Inr w'" and "i < length cs"
  obtains wa wb where "run_calls (take i cs) w = Inr wa" and "perform (cs ! i) wa = Inr wb"
    and "run_calls (drop (Suc i) cs) wb = Inr w'"
proof -
  from assms(2) have "cs = take i cs @ cs ! i # drop (Suc i) cs"
    by (rule id_take_nth_drop)
  with assms(1) have "run_calls (take i cs @ cs ! i # drop (Suc i) cs) w = Inr w'"
    by simp
  then show ?thesis
    by (auto simp: run_calls_append run_calls_Cons split: sum.splits intro: that)
qed

lemma run_calls_written:
  assumes "run_calls cs w = Inr w'" and "i < length cs" and "cs ! i = WriteCall p s"
    and "list_all (\<lambda>c. apart c p) (drop (Suc i) cs)"
  shows "\<exists>m. stat w' p = Some (File s m)"
proof -
  from assms(1,2) obtain wa wb where "perform (cs ! i) wa = Inr wb"
    and rest: "run_calls (drop (Suc i) cs) wb = Inr w'"
    by (rule run_calls_split)
  with assms(3) have "\<exists>m. stat wb p = Some (File s m)"
    by (auto simp: perform_Inr dest: sys_open_w_stat)
  with rest assms(4) show ?thesis
    by (auto dest: run_calls_apart)
qed

lemma evolves_is_dir: "evolves w w' \<Longrightarrow> is_dir w p \<Longrightarrow> is_dir w' p"
proof -
  assume ev: "evolves w w'" and d: "is_dir w p"
  from d obtain k m where k: "locate w p = Inr k" and n: "node_at (files w) k = Some (Dir m)"
    by (auto simp: is_dir_def stat_def split: sum.splits option.splits node.splits)
  from k ev have k': "locate w' p = Inr k" by (rule locate_evolves)
  from ev n have "\<exists>m'. node_at (files w') k = Some (Dir m')"
    by (auto simp: evolves_def dirs_kept_def node_at_def split: if_splits)
  with k' show ?thesis by (auto simp: is_dir_def stat_located)
qed

lemma evolves_exists: "evolves w w' \<Longrightarrow> stat w p \<noteq> None \<Longrightarrow> stat w' p \<noteq> None"
proof -
  assume ev: "evolves w w'" and d: "stat w p \<noteq> None"
  from d obtain k n where k: "locate w p = Inr k" and n: "node_at (files w) k = Some n"
    by (auto simp: stat_def split: sum.splits)
  from k ev have k': "locate w' p = Inr k" by (rule locate_evolves)
  from ev n have "node_at (files w') k \<noteq> None"
    by (cases n) (auto simp: evolves_def dirs_kept_def files_kept_def node_at_def split: if_splits)
  with k' show ?thesis by (simp add: stat_located)
qed

lemma run_calls_made:
  assumes "run_calls cs w = Inr w'" and "i < length cs" and "cs ! i = MkdirCall p"
  shows "is_dir w' p"
proof -
  from assms(1,2) obtain wa wb where "perform (cs ! i) wa = Inr wb"
    and rest: "run_calls (drop (Suc i) cs) wb = Inr w'"
    by (rule run_calls_split)
  with assms(3) have "is_dir wb p"
    by (auto simp: perform_Inr dest: mkdir_parents_is_dir)
  with rest show ?thesis
    by (auto dest: run_calls_evolves intro: evolves_is_dir)
qed

lemma run_calls_touched:
  assumes "run_calls cs w = Inr w'" and "i < length cs" and "cs ! i = TouchCall p"
  shows "stat w' p \<noteq> None"
proof -
  from assms(1,2) obtain wa wb where "perform (cs ! i) wa = Inr wb"
    and rest: "run_calls (drop (Suc i) cs) wb = Inr w'"
    by (rule run_calls_split)
  with assms(3) have "stat wb p \<noteq> None"
    by (auto simp: perform_Inr dest!: touch_stat split: option.splits)
  moreover from rest have "evolves wb w'" by (simp add: run_calls_evolves)
  ultimately show ?thesis by (blast dest: evolves_exists)
qed

lemmas path_simps = differs_def last_parts_truediv_str

subsection \<open>Calls that change nothing\<close>

text \<open>
  A call on a world that is settled for it returns the world as it is. Writing a file and
  then writing its old content back, with only settled calls between, restores the tree.
\<close>

lemma read_text_trace_upd [simp]: "read_text (w\<lparr>trace := t\<rparr>) p = read_text w p"
  by (simp add: read_text_def)

lemma file_mode_trace_upd [simp]: "file_mode (w\<lparr>trace := t\<rparr>) p = file_mode w p"
  by (simp add: file_mode_def)

lemma settled_trace_upd [simp]: "settled (w\<lparr>trace := t\<rparr>) c = settled w c"
  by (cases c) simp_all

lemma stat_FileD:
  "stat w p = Some (File s m) \<Longrightarrow>
   \<exists>k. locate w p = Inr k \<and> k \<noteq> [] \<and> files w k = Some (File s m)"
  by (auto simp: stat_def node_at_def split: sum.splits if_splits)

lemma sys_open_w_existing:
  assumes "locate w p = Inr k" and "k \<noteq> []" and "files w k = Some (File old m)"
  shows "sys_open_w p s w = Inr (w\<lparr>files := (files w)(k \<mapsto> File s m)\<rparr>)"
  using assms by (simp add: sys_open_w_def node_at_def)

lemma settled_exec: "settled w c \<Longrightarrow> exec c w = Inr w"
proof (cases c)
  case (MkdirCall p)
  assume "settled w c"
  with MkdirCall have d: "is_dir w p" by simp
  then obtain k n where "locate w p = Inr k" and "node_at (files w) k = Some n"
    by (auto simp: is_dir_def stat_def split: sum.splits option.splits)
  then have "sys_mkdir p w = Inl FileExistsError"
    by (simp add: sys_mkdir_def)
  with d have "mkdir_parents p w = Inr w"
    by (subst mkdir_parents.simps) simp
  with MkdirCall show ?thesis by simp
next
  case (TouchCall p)
  assume "settled w c"
  with TouchCall show ?thesis
    by (auto simp: touch_def stat_def split: sum.splits option.splits)
next
  case (WriteCall p s)
  assume "settled w c"
  with WriteCall obtain m where "stat w p = Some (File s m)"
    by (auto simp: read_text_def split: option.splits node.splits)
  then obtain k where "locate w p = Inr k" and "k \<noteq> []" and f: "files w k = Some (File s m)"
    by (auto dest: stat_FileD)
  then have "sys_open_w p s w = Inr (w\<lparr>files := (files w)(k \<mapsto> File s m)\<rparr>)"
    by (rule sys_open_w_existing)
  moreover from f have "(files w)(k \<mapsto> File s m) = files w" by (rule map_upd_triv)
  ultimately show ?thesis using WriteCall by simp
next
  case (ChmodCall p m)
  assume "settled w c"
  with ChmodCall obtain s where "stat w p = Some (File s m)"
    by (auto simp: file_mode_def split: option.splits node.splits)
  then obtain k where "locate w p = Inr k" and "k \<noteq> []" and f: "files w k = Some (File s m)"
    by (auto dest: stat_FileD)
  then have "sys_chmod p m w = Inr (w\<lparr>files := (files w)(k \<mapsto> File s m)\<rparr>)"
    by (simp add: sys_chmod_def node_at_def)
  moreover from f have "(files w)(k \<mapsto> File s m) = files w" by (rule map_upd_triv)
  ultimately show ?thesis using ChmodCall by simp
qed

lemma run_calls_settled:
  "list_all (settled w) cs \<Longrightarrow> run_calls cs w = Inr (w\<lparr>trace := trace w @ cs\<rparr>)"
proof (induction cs arbitrary: w)
  case Nil
  then show ?case by simp
next
  case (Cons c cs)
  let ?w1 = "w\<lparr>trace := trace w @ [c]\<rparr>"
  from Cons.prems have "perform c w = Inr ?w1"
    by (simp add: perform_def settled_exec)
  moreover from Cons.prems have "list_all (settled ?w1) cs"
    by (simp add: list_all_iff)
  then have "run_calls cs ?w1 = Inr (?w1\<lparr>trace := trace ?w1 @ cs\<rparr>)"
    by (rule Cons.IH)
  ultimately show ?case by (simp add: run_calls_Cons)
qed

lemma sys_open_w_keeps_mode:
  assumes "sys_open_w q s' w = Inr w'" and "stat w p = Some (File s m)"
  shows "\<exists>s''. stat w' p = Some (File s'' m)"
proof -
  from assms(2) obtain kp where kp: "locate w p = Inr kp" and "kp \<noteq> []"
    and f: "files w kp = Some (File s m)"
    by (auto dest: stat_FileD)
  from assms(1) have "evolves w w'" by (simp add: sys_open_w_evolves)
  with kp have kp': "locate w' p = Inr kp" by (rule locate_evolves)
  from assms(1) have "\<exists>s''. files w' kp = Some (File s'' m)"
    using f by (cases rule: sys_open_w_cases) auto
  with kp' \<open>kp \<noteq> []\<close> show ?thesis by (simp add: stat_located node_at_def)
qed

lemma keeps_write:
  assumes "settled w c" and "sys_open_w q s' w = Inr w'" and "keeps c q"
  shows "settled w' c"
proof (cases c)
  case (MkdirCall p)
  from assms(2) have "evolves w w'" by (simp add: sys_open_w_evolves)
  with assms(1) MkdirCall show ?thesis by (auto intro: evolves_is_dir)
next
  case (TouchCall p)
  from assms(2) have "evolves w w'" by (simp add: sys_open_w_evolves)
  with assms(1) TouchCall show ?thesis by (auto dest: evolves_exists)
next
  case (WriteCall p s)
  with assms(1) obtain m where "stat w p = Some (File s m)"
    by (auto simp: read_text_def split: option.splits node.splits)
  with assms(2,3) WriteCall have "stat w' p = Some (File s m)"
    by (auto intro: sys_open_w_apart)
  with WriteCall show ?thesis by (simp add: read_text_def)
next
  case (ChmodCall p m)
  with assms(1) obtain s where "stat w p = Some (File s m)"
    by (auto simp: file_mode_def split: option.splits node.splits)
  with assms(2) obtain s'' where "stat w' p = Some (File s'' m)"
    by (blast dest: sys_open_w_keeps_mode)
  with ChmodCall show ?thesis by (simp add: file_mode_def)
qed

lemma rewrite_restores:
  assumes st: "stat w p = Some (File s m)"
    and B: "list_all (settled w) B" and K: "list_all (\<lambda>c. keeps c p) B"
  shows "\<exists>w'. run_calls (WriteCall p s0 # B @ [WriteCall p s]) w = Inr w' \<and>
           files w' = files w \<and> same_env w w'"
proof -
  from st obtain k where k: "locate w p = Inr k" and k0: "k \<noteq> []"
    and f: "files w k = Some (File s m)"
    by (auto dest: stat_FileD)
  define wa where "wa = w\<lparr>files := (files w)(k \<mapsto> File s0 m)\<rparr>"
  define wb where "wb = wa\<lparr>trace := trace wa @ [WriteCall p s0]\<rparr>"
  define wc where "wc = wb\<lparr>trace := trace wb @ B\<rparr>"
  define wd where "wd = wc\<lparr>files := (files wc)(k \<mapsto> File s m)\<rparr>"
  define we where "we = wd\<lparr>trace := trace wd @ [WriteCall p s]\<rparr>"
  from k k0 f have open1: "sys_open_w p s0 w = Inr wa"
    unfolding wa_def by (rule sys_open_w_existing)
  then have 1: "perform (WriteCall p s0) w = Inr wb"
    by (simp add: perform_def wb_def)
  have "list_all (settled wa) B"
    using B K open1 by (auto simp: list_all_iff intro: keeps_write)
  then have "list_all (settled wb) B"
    by (simp add: wb_def list_all_iff)
  then have 2: "run_calls B wb = Inr wc"
    unfolding wc_def by (rule run_calls_settled)
  from open1 have "evolves w wa" by (simp add: sys_open_w_evolves)
  with k have "locate wa p = Inr k" by (rule locate_evolves)
  then have "locate wc p = Inr k" by (simp add: wc_def wb_def)
  moreover have "files wc k = Some (File s0 m)"
    by (simp add: wc_def wb_def wa_def)
  ultimately have "sys_open_w p s wc = Inr wd"
    unfolding wd_def using k0 by (intro sys_open_w_existing)
  then have 3: "perform (WriteCall p s) wc = Inr we"
    by (simp add: perform_def we_def)
  from 1 2 3 have "run_calls (WriteCall p s0 # B @ [WriteCall p s]) w = Inr we"
    by (simp add: run_calls_Cons run_calls_append)
  moreover from f have "files we = files w"
    by (simp add: we_def wd_def wc_def wb_def wa_def map_upd_triv)
  moreover have "same_env w we"
    by (simp add: we_def wd_def wc_def wb_def wa_def same_env_def)
  ultimately show ?thesis by blast
qed

subsection \<open>The data-project run\<close>

lemma run_calls_new:
  "run_calls cs w = Inr w' \<Longrightarrow> drop (length (trace w)) (trace w') = cs"
  by (auto dest!: run_calls_evolves)

lemma data_written:
  assumes "run_calls (data_calls r y) w = Inr w'"
  shows "read_text w' (truediv_str r ''helpers.py'') = Some helpers_content"
    and "read_text w' (truediv_str r ''.gitignore'') = Some final_gitignore_content"
    and "read_text w' (truediv_str r ''LICENSE'') = Some (license_content y)"
    and "read_text w' (truediv_str r ''README.md'') = Some readme_content"
proof -
  from assms have "\<exists>m. stat w' (truediv_str r ''helpers.py'') = Some (File helpers_content m)"
    by (rule run_calls_written [where i = 5]) (simp_all add: data_calls_def path_simps)
  then show "read_text w' (truediv_str r ''helpers.py'') = Some helpers_content"
    by (auto simp: read_text_def)
  from assms have
    "\<exists>m. stat w' (truediv_str r ''.gitignore'') = Some (File final_gitignore_content m)"
    by (rule run_calls_written [where i = 12]) (simp_all add: data_calls_def path_simps)
  then show "read_text w' (truediv_str r ''.gitignore'') = Some final_gitignore_content"
    by (auto simp: read_text_def)
  from assms have "\<exists>m. stat w' (truediv_str r ''LICENSE'') = Some (File (license_content y) m)"
    by (rule run_calls_written [where i = 7]) (simp_all add: data_calls_def path_simps)
  then show "read_text w' (truediv_str r ''LICENSE'') = Some (license_content y)"
    by (auto simp: read_text_def)
  from assms have "\<exists>m. stat w' (truediv_str r ''README.md'') = Some (File readme_content m)"
    by (rule run_calls_written [where i = 8]) (simp_all add: data_calls_def path_simps)
  then show "read_text w' (truediv_str r ''README.md'') = Some readme_content"
    by (auto simp: read_text_def)
qed

lemma data_run_bash:
  assumes "run_calls (data_calls r y) w = Inr w'"
  shows "stat w' (truediv_str r ''run.bash'') = Some (File run_bash_content 493)"
proof -
  let ?rb = "truediv_str r ''run.bash''"
  let ?tail = "[ChmodCall ?rb 493, ChmodCall ?rb 493,
                WriteCall (truediv_str r ''.gitignore'') final_gitignore_content]"
  have cs: "data_calls r y = take 10 (data_calls r y) @ ?tail"
    by (simp add: data_calls_def)
  from assms obtain wa where a: "run_calls (take 10 (data_calls r y)) w = Inr wa"
    and b: "run_calls ?tail wa = Inr w'"
    by (subst (asm) cs) (auto simp: run_calls_append split: sum.splits)
  from a obtain m where "stat wa ?rb = Some (File run_bash_content m)"
    using run_calls_written [where i = 9 and cs = "take 10 (data_calls r y)"
        and p = ?rb and s = run_bash_content]
    by (auto simp: data_calls_def)
  moreover from b obtain wb wc where 1: "sys_chmod ?rb 493 wa = Inr wb"
    and 2: "sys_chmod ?rb 493 (wb\<lparr>trace := trace wb @ [ChmodCall ?rb 493]\<rparr>) = Inr wc"
    and 3: "perform (WriteCall (truediv_str r ''.gitignore'') final_gitignore_content)
              (wc\<lparr>trace := trace wc @ [ChmodCall ?rb 493]\<rparr>) = Inr w'"
    by (auto simp: run_calls_Cons_Inr perform_Inr)
  ultimately have "stat wb ?rb = Some (File run_bash_content 493)"
    by (blast dest: sys_chmod_stat)
  then have "stat (wb\<lparr>trace := trace wb @ [ChmodCall ?rb 493]\<rparr>) ?rb
             = Some (File run_bash_content 493)"
    by simp
  with 2 have "stat wc ?rb = Some (File run_bash_content 493)"
    by (rule sys_chmod_stat)
  then have "stat (wc\<lparr>trace := trace wc @ [ChmodCall ?rb 493]\<rparr>) ?rb
             = Some (File run_bash_content 493)"
    by simp
  with 3 show ?thesis
    by (rule perform_apart) (simp add: path_simps)
qed

lemma data_dirs:
  assumes "run_calls (data_calls r y) w = Inr w'"
  shows "is_dir w' (truediv_str r ''data'')" and "is_dir w' (truediv_str r ''output'')"
    and "is_dir w' (truediv_str r ''logs'')" and "is_dir w' (truediv_str r ''bash'')"
    and "stat w' (truediv_str r ''config.py'') \<noteq> None"
proof -
  from assms show "is_dir w' (truediv_str r ''data'')"
    by (rule run_calls_made [where i = 0]) (simp_all add: data_calls_def)
  from assms show "is_dir w' (truediv_str r ''output'')"
    by (rule run_calls_made [where i = 1]) (simp_all add: data_calls_def)
  from assms show "is_dir w' (truediv_str r ''logs'')"
    by (rule run_calls_made [where i = 2]) (simp_all add: data_calls_def)
  from assms show "is_dir w' (truediv_str r ''bash'')"
    by (rule run_calls_made [where i = 3]) (simp_all add: data_calls_def)
  from assms show "stat w' (truediv_str r ''config.py'') \<noteq> None"
    by (rule run_calls_touched [where i = 4]) (simp_all add: data_calls_def)
qed


lemma data_second_run:
  assumes "run_calls (data_calls r y) w = Inr w1"
  shows "\<exists>w2. run_calls (data_calls r y) w1 = Inr w2 \<and> files w2 = files w1 \<and> same_env w1 w2"
proof -
  let ?gi = "truediv_str r ''.gitignore''"
  let ?rb = "truediv_str r ''run.bash''"
  let ?A = "take 6 (data_calls r y)"
  let ?B = "[WriteCall (truediv_str r ''LICENSE'') (license_content y),
             WriteCall (truediv_str r ''README.md'') readme_content,
             WriteCall ?rb run_bash_content, ChmodCall ?rb 493, ChmodCall ?rb 493]"
  note d = data_dirs [OF assms] and t = data_written [OF assms] and rb = data_run_bash [OF assms]
  have cs: "data_calls r y
            = ?A @ WriteCall ?gi gitignore_content # ?B @ [WriteCall ?gi final_gitignore_content]"
    by (simp add: data_calls_def)
  from d t have "list_all (settled w1) ?A"
    by (simp add: data_calls_def)
  then have A: "run_calls ?A w1 = Inr (w1\<lparr>trace := trace w1 @ ?A\<rparr>)"
    by (rule run_calls_settled)
  let ?wa = "w1\<lparr>trace := trace w1 @ ?A\<rparr>"
  from t(2) obtain m where "stat w1 ?gi = Some (File final_gitignore_content m)"
    by (auto simp: read_text_def split: option.splits node.splits)
  then have "stat ?wa ?gi = Some (File final_gitignore_content m)"
    by simp
  moreover from t rb have "list_all (settled ?wa) ?B"
    by (simp add: read_text_def file_mode_def)
  moreover have "list_all (\<lambda>c. keeps c ?gi) ?B"
    by (simp add: path_simps)
  ultimately obtain w2 where
    "run_calls (WriteCall ?gi gitignore_content # ?B @ [WriteCall ?gi final_gitignore_content]) ?wa
     = Inr w2" and "files w2 = files ?wa" and "same_env ?wa w2"
    by (blast dest: rewrite_restores)
  with A have "run_calls (data_calls r y) w1 = Inr w2 \<and> files w2 = files w1 \<and> same_env w1 w2"
    by (subst cs) (simp add: run_calls_append same_env_def)
  then show ?thesis ..
qed

subsection \<open>The package run\<close>

lemma run_calls_read:
  assumes "run_calls cs w = Inr w'" and "i < length cs" and "cs ! i = WriteCall p s"
    and "list_all (\<lambda>c. apart c p) (drop (Suc i) cs)"
  shows "read_text w' p = Some s"
  using run_calls_written [OF assms] by (auto simp: read_text_def)

lemma pkg_written:
  assumes "run_calls (pkg_calls r n y) w = Inr w'"
  shows "read_text w' (truediv_str (truediv_str (truediv_str r ''src'') n) ''__init__.py'')
         = Some (init_content n)"
    and "read_text w' (truediv_str (truediv_str (truediv_str r ''src'') n) ''base.py'')
         = Some base_content"
    and "read_text w' (truediv_str (truediv_str r ''tests'') ''test_module1.py'')
         = Some test_content"
    and "read_text w' (truediv_str (truediv_str r ''examples'') ''basic_usage.py'')
         = Some example_content"
    and "read_text w' (truediv_str r ''pyproject.toml'') = Some (pyproject_content n)"
    and "read_text w' (truediv_str r ''README.md'') = Some (pkg_readme_content n)"
    and "read_text w' (truediv_str r ''LICENSE'') = Some (pkg_license_content y)"
    and "read_text w' (truediv_str r ''.gitignore'') = Some pkg_gitignore_content"
proof -
  from assms show
    "read_text w' (truediv_str (truediv_str (truediv_str r ''src'') n) ''__init__.py'')
     = Some (init_content n)"
    by (rule run_calls_read [where i = 3]) (simp_all add: pkg_calls_def path_simps)
  from assms show
    "read_text w' (truediv_str (truediv_str (truediv_str r ''src'') n) ''base.py'')
     = Some base_content"
    by (rule run_calls_read [where i = 4]) (simp_all add: pkg_calls_def path_simps)
  from assms show
    "read_text w' (truediv_str (truediv_str r ''tests'') ''test_module1.py'') = Some test_content"
    by (rule run_calls_read [where i = 5]) (simp_all add: pkg_calls_def path_simps)
  from assms show
    "read_text w' (truediv_str (truediv_str r ''examples'') ''basic_usage.py'')
     = Some example_content"
    by (rule run_calls_read [where i = 6]) (simp_all add: pkg_calls_def path_simps)
  from assms show "read_text w' (truediv_str r ''pyproject.toml'') = Some (pyproject_content n)"
    by (rule run_calls_read [where i = 7]) (simp_all add: pkg_calls_def path_simps)
  from assms show "read_text w' (truediv_str r ''README.md'') = Some (pkg_readme_content n)"
    by (rule run_calls_read [where i = 8]) (simp_all add: pkg_calls_def path_simps)
  from assms show "read_text w' (truediv_str r ''LICENSE'') = Some (pkg_license_content y)"
    by (rule run_calls_read [where i = 9]) (simp_all add: pkg_calls_def path_simps)
  from assms show "read_text w' (truediv_str r ''.gitignore'') = Some pkg_gitignore_content"
    by (rule run_calls_read [where i = 10]) (simp_all add: pkg_calls_def path_simps)
qed

lemma pkg_dirs:
  assumes "run_calls (pkg_calls r n y) w = Inr w'"
  shows "is_dir w' (truediv r (truediv_str (parse_path ''src'') n))"
    and "is_dir w' (truediv r (truediv_str (parse_path ''tests'') ''test_data''))"
    and "is_dir w' (truediv r (parse_path ''examples''))"
proof -
  from assms show "is_dir w' (truediv r (truediv_str (parse_path ''src'') n))"
    by (rule run_calls_made [where i = 0]) (simp_all add: pkg_calls_def)
  from assms show "is_dir w' (truediv r (truediv_str (parse_path ''tests'') ''test_data''))"
    by (rule run_calls_made [where i = 1]) (simp_all add: pkg_calls_def)
  from assms show "is_dir w' (truediv r (parse_path ''examples''))"
    by (rule run_calls_made [where i = 2]) (simp_all add: pkg_calls_def)
qed

subsection \<open>Substrings and decimal numerals\<close>

lemma startswith_append: "startswith (s @ b) s"
  by (induction s) auto

lemma startswith_iff: "startswith xs s \<longleftrightarrow> (\<exists>b. xs = s @ b)"
proof
  show "startswith xs s \<Longrightarrow> \<exists>b. xs = s @ b"
    by (induction xs s rule: startswith.induct) auto
qed (auto simp: startswith_append)

lemma contains_iff: "contains xs s \<longleftrightarrow> (\<exists>a b. xs = a @ s @ b)"
proof (induction xs)
  case Nil
  then show ?case by auto
next
  case (Cons c cs)
  show ?case
  proof
    assume "contains (c # cs) s"
    then consider "startswith (c # cs) s" | "contains cs s" by auto
    then show "\<exists>a b. c # cs = a @ s @ b"
    proof cases
      case 1
      then obtain b where "c # cs = s @ b" by (auto simp: startswith_iff)
      then have "c # cs = [] @ s @ b" by simp
      then show ?thesis by blast
    next
      case 2
      with Cons.IH obtain a b where "cs = a @ s @ b" by blast
      then have "c # cs = (c # a) @ s @ b" by simp
      then show ?thesis by blast
    qed
  next
    assume "\<exists>a b. c # cs = a @ s @ b"
    then obtain a b where ab: "c # cs = a @ s @ b" by blast
    show "contains (c # cs) s"
    proof (cases a)
      case Nil
      with ab have "startswith (c # cs) s" by (auto simp: startswith_iff)
      then show ?thesis by simp
    next
      case (Cons x a')
      with ab have "cs = a' @ s @ b" by simp
      with Cons.IH have "contains cs s" by blast
      then show ?thesis by simp
    qed
  qed
qed

lemma contains_trans: "contains xs ys \<Longrightarrow> contains ys zs \<Longrightarrow> contains xs zs"
proof -
  assume "contains xs ys" and "contains ys zs"
  then obtain a b c d where "xs = a @ ys @ b" and "ys = c @ zs @ d"
    by (auto simp: contains_iff)
  then have "xs = (a @ c) @ zs @ (d @ b)" by simp
  then show ?thesis unfolding contains_iff by blast
qed

lemma contains_unlines: "l \<in> set ls \<Longrightarrow> contains (unlines ls) l"
proof -
  assume "l \<in> set ls"
  then obtain xs ys where "ls = xs @ l # ys" by (auto dest: split_list)
  then have "unlines ls = unlines xs @ l @ ([CHR 0x0A] @ unlines ys)"
    by (simp add: unlines_def)
  then show ?thesis unfolding contains_iff by blast
qed

subsection \<open>Example runs\<close>

lemmas eval_simps =
  run_calls_Cons perform_def mkdir_parents.simps mkdir_exist_ok_def sys_mkdir_def
  sys_open_w_def sys_chmod_def touch_def locate_def start_def node_at_def is_dir_def stat_def
  truediv_str_def truediv_def parse_path_def splitroot_def parent_def

lemma succeedsE:
  assumes "succeeds r"
  obtains w' where "r = Inr w'"
  using assms by (cases r) (auto simp: succeeds_def)

lemma data_used_run: "succeeds (create_project ''demo'' tmp used_world)"
  unfolding create_project_run
  by (simp add: succeeds_def data_calls_def tmp_def used_world_def eval_simps)

lemma pkg_used_run: "succeeds (create_project_structure ''mypkg'' tmp used_world)"
  unfolding create_project_structure_run
  by (simp add: succeeds_def pkg_calls_def tmp_def used_world_def eval_simps)

lemma data_empty_run: "succeeds (create_project [] tmp fresh_world)"
  unfolding create_project_run
  by (simp add: succeeds_def data_calls_def tmp_def fresh_world_def eval_simps)

lemma pkg_empty_run: "succeeds (create_project_structure [] tmp fresh_world)"
  unfolding create_project_structure_run
  by (simp add: succeeds_def pkg_calls_def tmp_def fresh_world_def eval_simps)

lemma demo_paths:
  "truediv_str tmp ''demo'' = Path ''/'' [''tmp'', ''demo'']"
  "truediv_str tmp ''mypkg'' = Path ''/'' [''tmp'', ''mypkg'']"
  by (simp_all add: tmp_def truediv_str_plain)

subsection \<open>Paths and logs of the two runs\<close>

lemma run_new_calls: "run_calls cs w = Inr w' \<Longrightarrow> new_calls w w' = cs"
  by (simp add: new_calls_def run_calls_new)

lemma truediv_assoc: "truediv (truediv p q) s = truediv p (truediv q s)"
  by (simp add: truediv_def)


lemma within_refl [simp]: "within p p"
  by (simp add: within_def)


lemma path_eq_simps:
  "CHR ''/'' \<notin> set s \<Longrightarrow> s \<noteq> [] \<Longrightarrow> s \<noteq> ''.'' \<Longrightarrow>
   CHR ''/'' \<notin> set t \<Longrightarrow> t \<noteq> [] \<Longrightarrow> t \<noteq> ''.'' \<Longrightarrow>
   truediv_str p s = truediv_str p t \<longleftrightarrow> s = t"
  by (simp add: truediv_str_plain)


lemma plain_paths:
  "parse_path ''src'' = Path [] [''src'']"
  "parse_path ''examples'' = Path [] [''examples'']"
  "truediv_str (parse_path ''tests'') ''test_data'' = Path [] [''tests'', ''test_data'']"
  by (simp_all add: parse_path_plain truediv_str_plain)


lemmas world_simps =
  read_text_def file_mode_def stat_def locate_def start_def node_at_def used_world_def
  fresh_world_def

lemma used_world_before:
  "read_text used_world (Path ''/'' [''tmp'', ''demo'', ''.gitignore'']) = Some ''*.log''"
  "read_text used_world (Path ''/'' [''tmp'', ''demo'', ''helpers.py'']) = Some ''import sys''"
  "stat used_world (Path ''/'' [''tmp'', ''demo'', ''config.py''])
     = Some (File ''DEBUG = True'' 384)"
  "file_mode used_world (Path ''/'' [''tmp'', ''demo'', ''run.bash'']) = Some 420"
  "read_text used_world (Path ''/'' [''tmp'', ''mypkg'', ''README.md'']) = Some ''# Old''"
  "read_text used_world (Path ''/'' [''tmp'', ''mypkg'', ''tests'', ''test_module1.py''])
     = Some ''assert False''"
  by (simp_all add: world_simps)


lemma digit_value: "d < 10 \<Longrightarrow> of_char (''0123456789'' ! d) = (48 + d :: nat)"
proof -
  assume "d < 10"
  then have "d \<in> {0, 1, 2, 3, 4, 5, 6, 7, 8, 9}" by auto
  then show ?thesis by auto
qed

lemma nat_of_decimal_str_nat: "nat_of_decimal (str_nat n) = n"
proof (induction n rule: str_nat.induct)
  case (1 n)
  show ?case
  proof (cases "n < 10")
    case True
    then show ?thesis
      by (subst str_nat.simps) (simp add: nat_of_decimal_def digit_value)
  next
    case False
    with 1 have "nat_of_decimal (str_nat (n div 10)) = n div 10" by simp
    with False show ?thesis
      by (subst str_nat.simps) (simp add: nat_of_decimal_def digit_value)
  qed
qed

subsection \<open>The directories a run creates\<close>

lemma new_dirs_refl [simp]: "new_dirs w w Q"
  by (auto simp: new_dirs_def)

lemma new_dirs_mono: "new_dirs w w' Q \<Longrightarrow> Q \<subseteq> Q' \<Longrightarrow> new_dirs w w' Q'"
  unfolding new_dirs_def by blast

lemma new_dirs_trans:
  assumes "new_dirs w w1 Q1" and "new_dirs w1 w2 Q2" and "evolves w1 w2"
  shows "new_dirs w w2 (Q1 \<union> Q2)"
  unfolding new_dirs_def
proof (intro allI impI)
  fix k m
  assume k: "k \<noteq> []" and d: "files w2 k = Some (Dir m)"
  from assms(2) k d consider m1 where "files w1 k = Some (Dir m1)"
    | q where "q \<in> Q2" and "locate w2 q = Inr k"
    unfolding new_dirs_def by blast
  then show "(\<exists>m0. files w k = Some (Dir m0)) \<or> (\<exists>q\<in>Q1 \<union> Q2. locate w2 q = Inr k)"
  proof cases
    case 1
    with assms(1) k consider m0 where "files w k = Some (Dir m0)"
      | q where "q \<in> Q1" and "locate w1 q = Inr k"
      unfolding new_dirs_def by blast
    then show ?thesis
    proof cases
      case 1
      then show ?thesis by blast
    next
      case 2
      from 2(2) assms(3) have "locate w2 q = Inr k" by (rule locate_evolves)
      with 2(1) show ?thesis by blast
    qed
  next
    case 2
    then show ?thesis by blast
  qed
qed

lemma self_in_ancestors: "p \<in> set (ancestors_or_self p)"
proof -
  have "Path (path_root p) (take (length (path_parts p)) (path_parts p)) \<in>
        set (ancestors_or_self p)"
    unfolding ancestors_or_self_def set_map by (rule imageI) simp
  then show ?thesis by simp
qed

lemma parent_ancestors: "set (ancestors_or_self (parent p)) \<subseteq> set (ancestors_or_self p)"
proof
  fix q
  assume "q \<in> set (ancestors_or_self (parent p))"
  then obtain i where "i < Suc (length (path_parts (parent p)))"
    and "q = Path (path_root (parent p)) (take i (path_parts (parent p)))"
    unfolding ancestors_or_self_def by (auto simp del: upt_Suc)
  then have i: "i \<le> length (butlast (path_parts p))"
    and q: "q = Path (path_root p) (take i (butlast (path_parts p)))"
    by (simp_all add: parent_def)
  from i have "take i (butlast (path_parts p)) = take i (path_parts p)"
    by (auto simp: butlast_conv_take min_def split: if_splits)
  with q i have "q = Path (path_root p) (take i (path_parts p))" and "i < Suc (length (path_parts p))"
    by simp_all
  then show "q \<in> set (ancestors_or_self p)"
    unfolding ancestors_or_self_def set_map by (intro image_eqI [where x = i]) auto
qed

lemma sys_mkdir_new_dirs: "sys_mkdir p w = Inr w' \<Longrightarrow> new_dirs w w' {p}"
proof -
  assume a: "sys_mkdir p w = Inr w'"
  then obtain k where k: "locate w p = Inr k"
    and w': "w' = w\<lparr>files := (files w)(k \<mapsto> Dir (and 511 (not (umask w))))\<rparr>"
    by (auto simp: sys_mkdir_def split: sum.splits option.splits)
  from a have "evolves w w'" by (simp add: sys_mkdir_grows grows_evolves)
  with k have "locate w' p = Inr k" by (rule locate_evolves)
  with w' show ?thesis by (auto simp: new_dirs_def)
qed

lemma mkdir_exist_ok_new_dirs: "mkdir_exist_ok p w = Inr w' \<Longrightarrow> new_dirs w w' {p}"
  by (auto simp: mkdir_exist_ok_def split: sum.splits error.splits if_splits
           dest: sys_mkdir_new_dirs)

lemma mkdir_parents_new_dirs:
  "mkdir_parents p w = Inr w' \<Longrightarrow> new_dirs w w' (set (ancestors_or_self p))"
proof (induction p w arbitrary: w' rule: mkdir_parents.induct)
  case (1 p w)
  from "1.prems" show ?case
  proof (cases rule: mkdir_parents_cases)
    case direct
    then have "new_dirs w w' {p}" by (rule sys_mkdir_new_dirs)
    then show ?thesis by (rule new_dirs_mono) (simp add: self_in_ancestors)
  next
    case (present e)
    then show ?thesis by simp
  next
    case (parents w1)
    from "1.IH" [OF parents(1) refl parents(2) parents(3)]
    have "new_dirs w w1 (set (ancestors_or_self (parent p)))" .
    moreover from parents(4) have "new_dirs w1 w' {p}" by (rule mkdir_exist_ok_new_dirs)
    moreover from parents(4) have "evolves w1 w'"
      by (simp add: mkdir_exist_ok_grows grows_evolves)
    ultimately have "new_dirs w w' (set (ancestors_or_self (parent p)) \<union> {p})"
      by (rule new_dirs_trans)
    moreover have "set (ancestors_or_self (parent p)) \<union> {p} \<subseteq> set (ancestors_or_self p)"
      using parent_ancestors [of p] by (simp add: self_in_ancestors)
    ultimately show ?thesis by (rule new_dirs_mono)
  qed
qed

lemma exec_new_dirs: "exec c w = Inr w' \<Longrightarrow> new_dirs w w' (call_dirs c)"
proof (cases c)
  case (MkdirCall p)
  assume "exec c w = Inr w'"
  with MkdirCall show ?thesis by (simp add: mkdir_parents_new_dirs)
next
  case (TouchCall p)
  assume "exec c w = Inr w'"
  with TouchCall show ?thesis
    by (auto simp: touch_def new_dirs_def split: sum.splits option.splits if_splits)
next
  case (WriteCall p s)
  assume "exec c w = Inr w'"
  with WriteCall have "sys_open_w p s w = Inr w'" by simp
  then show ?thesis
    by (cases rule: sys_open_w_cases) (auto simp: new_dirs_def split: if_splits)
next
  case (ChmodCall p m)
  assume "exec c w = Inr w'"
  with ChmodCall have "sys_chmod p m w = Inr w'" by simp
  then show ?thesis
    by (cases rule: sys_chmod_cases) (auto simp: new_dirs_def node_at_def split: if_splits)
qed

lemma new_dirs_trace_upd [simp]: "new_dirs w (w'\<lparr>trace := t\<rparr>) Q = new_dirs w w' Q"
  by (simp add: new_dirs_def)

lemma set_made: "set (concat (map ancestors_or_self (mkdir_targets (c # cs))))
   = call_dirs c \<union> set (concat (map ancestors_or_self (mkdir_targets cs)))"
  by (cases c) simp_all

lemma run_calls_new_dirs:
  "run_calls cs w = Inr w' \<Longrightarrow>
   new_dirs w w' (set (concat (map ancestors_or_self (mkdir_targets cs))))"
proof (induction cs arbitrary: w)
  case Nil
  then show ?case by simp
next
  case (Cons c cs)
  then obtain w1 where 1: "perform c w = Inr w1" and 2: "run_calls cs w1 = Inr w'"
    by (auto simp: run_calls_Cons split: sum.splits)
  from 1 have "new_dirs w w1 (call_dirs c)"
    by (auto simp: perform_Inr dest: exec_new_dirs)
  moreover from 2 have "new_dirs w1 w' (set (concat (map ancestors_or_self (mkdir_targets cs))))"
    by (rule Cons.IH)
  moreover from 2 have "evolves w1 w'" by (simp add: run_calls_evolves)
  ultimately show ?case
    unfolding set_made by (rule new_dirs_trans)
qed

lemma run_calls_made_by:
  assumes "run_calls cs w = Inr w'" and "k \<noteq> []" and "files w' k = Some (Dir m)"
  shows "(\<exists>m0. files w k = Some (Dir m0)) \<or> made_by w' (mkdir_targets cs) k"
  using run_calls_new_dirs [OF assms(1)] assms(2,3)
  unfolding new_dirs_def made_by_def list_ex_iff by blast

lemma walk_append:
  "walk fs k (xs @ ys) = (case walk fs k xs of Inl e \<Rightarrow> Inl e | Inr k' \<Rightarrow> walk fs k' ys)"
  by (induction fs k xs rule: walk.induct) (auto split: option.splits node.splits)

lemma is_dir_parent:
  assumes "is_dir w (Path r (xs @ [c, s]))" and "c \<noteq> ''..''"
  shows "is_dir w (Path r (xs @ [c]))"
proof -
  from assms(1) obtain k where "walk (files w) (start w (Path r (xs @ [c, s]))) (xs @ [c]) = Inr k"
    by (auto simp: is_dir_def stat_def locate_def butlast_append
             split: sum.splits option.splits node.splits)
  moreover have "start w (Path r (xs @ [c, s])) = start w (Path r (xs @ [c]))"
    by (simp add: start_def)
  ultimately obtain k0 m where "walk (files w) (start w (Path r (xs @ [c]))) xs = Inr k0"
    and "files w (k0 @ [c]) = Some (Dir m)"
    using assms(2)
    by (auto simp: walk_append split: sum.splits option.splits node.splits)
  then show ?thesis
    using assms(2) by (simp add: is_dir_def stat_def locate_def node_at_def)
qed

lemma used_world_dirs:
  "files used_world [''tmp'', ''mypkg'', ''src''] = None"
  "files used_world [''tmp'', ''demo'', ''output''] = None"
  "stat used_world (Path ''/'' [''tmp'', ''mypkg'', ''src'']) = None"
  by (simp_all add: world_simps)

lemma is_dir_key:
  assumes "is_dir w (Path ''/'' [a, b, c])" and "a \<noteq> ''..''" and "b \<noteq> ''..''" and "c \<noteq> ''..''"
  shows "\<exists>m. files w [a, b, c] = Some (Dir m)"
  using assms
  by (auto simp: is_dir_def stat_def locate_def start_def node_at_def
           split: sum.splits option.splits node.splits if_splits)


section \<open>The claims\<close>

text \<open>
  C1. For every data-project generation, the final content of the generated \<open>.gitignore\<close>
  at \<open>rootPath/.gitignore\<close> is the second, broader pattern and never the first one: the
  file ends as the eight lines that ignore everything (\<open>*\<close>) except \<open>README.md\<close>,
  \<open>.gitignore\<close>, \<open>*.py\<close> and \<open>*.bash\<close>, whereas the first pattern excepts
  \<open>.gitignore\<close>, \<open>README.md\<close> and \<open>LICENSE\<close>. Of the calls of a completed run
  exactly two name that path: the write of the first pattern and, after it, the write of the
  second.
\<close>

theorem final_gitignore:
  assumes "create_project n b w = Inr w'"
  shows "read_text w' (truediv_str (truediv_str b n) ''.gitignore'')
           = Some ''# ignore all\<newline>*\<newline>\<newline># except for these files\<newline>!README.md\<newline>!.gitignore\<newline>!*.py\<newline>!*.bash'' \<and>
         (\<exists>s. read_text w' (truediv_str (truediv_str b n) ''.gitignore'') = Some s \<and>
              ''*'' \<in> set (lines_of s) \<and>
              excepted s = [''README.md'', ''.gitignore'', ''*.py'', ''*.bash''] \<and>
              excepted s \<noteq> excepted gitignore_content) \<and>
         excepted gitignore_content = [''.gitignore'', ''README.md'', ''LICENSE''] \<and>
         read_text w' (truediv_str (truediv_str b n) ''.gitignore'') = Some final_gitignore_content \<and>
         read_text w' (truediv_str (truediv_str b n) ''.gitignore'') \<noteq> Some gitignore_content \<and>
         filter (\<lambda>c. target c = truediv_str (truediv_str b n) ''.gitignore'') (new_calls w w')
           = [WriteCall (truediv_str (truediv_str b n) ''.gitignore'') gitignore_content,
              WriteCall (truediv_str (truediv_str b n) ''.gitignore'') final_gitignore_content]"
proof -
  from assms have run:
    "run_calls (data_calls (truediv_str b n) (clock_year w)) w = Inr w'"
    by (simp add: create_project_Inr)
  have ne: "final_gitignore_content \<noteq> gitignore_content"
    by (simp add: final_gitignore_content_def gitignore_content_def unlines_def)
  have ex2: "excepted final_gitignore_content = [''README.md'', ''.gitignore'', ''*.py'', ''*.bash'']"
    by (simp add: excepted_def lines_of_def final_gitignore_content_def)
  have ex1: "excepted gitignore_content = [''.gitignore'', ''README.md'', ''LICENSE'']"
    by (simp add: excepted_def lines_of_def gitignore_content_def unlines_def)
  have star: "''*'' \<in> set (lines_of final_gitignore_content)"
    by (simp add: lines_of_def final_gitignore_content_def)
  from run have "new_calls w w' = data_calls (truediv_str b n) (clock_year w)"
    by (rule run_new_calls)
  then have "filter (\<lambda>c. target c = truediv_str (truediv_str b n) ''.gitignore'') (new_calls w w')
           = [WriteCall (truediv_str (truediv_str b n) ''.gitignore'') gitignore_content,
              WriteCall (truediv_str (truediv_str b n) ''.gitignore'') final_gitignore_content]"
    by (simp add: data_calls_def path_eq_simps)
  moreover note r = data_written(2) [OF run]
  moreover from r have
    "read_text w' (truediv_str (truediv_str b n) ''.gitignore'')
           = Some ''# ignore all\<newline>*\<newline>\<newline># except for these files\<newline>!README.md\<newline>!.gitignore\<newline>!*.py\<newline>!*.bash''"
    by (simp add: final_gitignore_content_def)
  moreover from r ex1 ex2 star have
    "\<exists>s. read_text w' (truediv_str (truediv_str b n) ''.gitignore'') = Some s \<and>
              ''*'' \<in> set (lines_of s) \<and>
              excepted s = [''README.md'', ''.gitignore'', ''*.py'', ''*.bash''] \<and>
              excepted s \<noteq> excepted gitignore_content"
    by simp
  ultimately show ?thesis using ne ex1 by simp
qed

theorem final_gitignore_witness:
  "\<exists>w'. create_project ''demo'' tmp used_world = Inr w' \<and>
     read_text used_world (Path ''/'' [''tmp'', ''demo'', ''.gitignore'']) = Some ''*.log'' \<and>
     read_text w' (Path ''/'' [''tmp'', ''demo'', ''.gitignore''])
       = Some ''# ignore all\<newline>*\<newline>\<newline># except for these files\<newline>!README.md\<newline>!.gitignore\<newline>!*.py\<newline>!*.bash''"
proof -
  from data_used_run obtain w' where run: "create_project ''demo'' tmp used_world = Inr w'"
    by (rule succeedsE)
  from final_gitignore [OF run] run used_world_before show ?thesis
    by (simp add: demo_paths truediv_str_plain)
qed

text \<open>
  C2. For a fixed generation-time year (the clock of the world does not move), running the
  data-project generator a second time on the world the first run left completes and leaves
  exactly the same tree: the same directories, files, contents and modes. Each of the four
  directory creations of the second run is a no-op.
\<close>

theorem data_project_idempotent:
  assumes "create_project n b w = Inr w1"
  shows "\<exists>w2. create_project n b w1 = Inr w2 \<and> files w2 = files w1 \<and>
           list_all (\<lambda>d. mkdir_parents (truediv_str (truediv_str b n) d) w1 = Inr w1) directories"
proof -
  from assms have run:
    "run_calls (data_calls (truediv_str b n) (clock_year w)) w = Inr w1"
    by (simp add: create_project_Inr)
  then have "evolves w w1" by (simp add: run_calls_evolves)
  then have y: "clock_year w1 = clock_year w" by (simp add: evolves_def same_env_def)
  from data_second_run [OF run] y obtain w2 where
    "create_project n b w1 = Inr w2" and "files w2 = files w1"
    by (auto simp: create_project_Inr)
  moreover from data_dirs(1-4) [OF run]
  have "list_all (\<lambda>d. mkdir_parents (truediv_str (truediv_str b n) d) w1 = Inr w1) directories"
    using settled_exec [of w1 "MkdirCall p" for p] by (simp add: directories_def)
  ultimately show ?thesis by blast
qed

theorem data_project_idempotent_witness:
  "\<exists>w1 w2. create_project ''demo'' tmp used_world = Inr w1 \<and>
     create_project ''demo'' tmp w1 = Inr w2 \<and> files w2 = files w1"
proof -
  from data_used_run obtain w1 where run: "create_project ''demo'' tmp used_world = Inr w1"
    by (rule succeedsE)
  from data_project_idempotent [OF run] run show ?thesis
    by blast
qed




text \<open>
  The unit-test file and the example file of a package are not empty: the first holds one
  newline, the second a newline and a comment line.
\<close>

theorem placeholder_files_not_empty_counterexample:
  "result_text (create_project_structure ''mypkg'' tmp used_world)
     (Path ''/'' [''tmp'', ''mypkg'', ''tests'', ''test_module1.py'']) = Some [CHR 0x0A] \<and>
   result_text (create_project_structure ''mypkg'' tmp used_world)
     (Path ''/'' [''tmp'', ''mypkg'', ''tests'', ''test_module1.py'']) \<noteq> Some [] \<and>
   result_text (create_project_structure ''mypkg'' tmp used_world)
     (Path ''/'' [''tmp'', ''mypkg'', ''examples'', ''basic_usage.py'']) \<noteq> Some []"
proof -
  from pkg_used_run obtain v' where
    run: "create_project_structure ''mypkg'' tmp used_world = Inr v'"
    by (rule succeedsE)
  then have "run_calls (pkg_calls (Path ''/'' [''tmp'', ''mypkg'']) ''mypkg''
               (clock_year used_world)) used_world = Inr v'"
    by (simp add: create_project_structure_Inr demo_paths)
  from pkg_written(3,4) [OF this] run show ?thesis
    by (simp add: result_text_def truediv_str_plain test_content_def example_content_def
          unlines_def)
qed

text \<open>
  C4, as amended. For every package-project generation, the generated unit-test file
  \<open>tests/test_module1.py\<close> holds exactly one newline character, and the generated
  example file \<open>examples/basic_usage.py\<close> holds a newline followed by the line
  \<open># Add example usage here\<close>; neither holds any code.
\<close>

theorem package_placeholder_files:
  assumes "create_project_structure n b w = Inr w'"
  shows "read_text w' (truediv_str (truediv_str (truediv_str b n) ''tests'') ''test_module1.py'')
           = Some [CHR 0x0A] \<and>
         read_text w' (truediv_str (truediv_str (truediv_str b n) ''examples'') ''basic_usage.py'')
           = Some ([CHR 0x0A] @ ''# Add example usage here'' @ [CHR 0x0A])"
proof -
  from assms have run: "run_calls (pkg_calls (truediv_str b n) n (clock_year w)) w = Inr w'"
    by (simp add: create_project_structure_Inr)
  from pkg_written(3,4) [OF run] show ?thesis
    by (simp add: test_content_def example_content_def unlines_def)
qed

theorem package_placeholder_files_witness:
  "\<exists>v'. create_project_structure ''mypkg'' tmp used_world = Inr v' \<and>
     read_text used_world (Path ''/'' [''tmp'', ''mypkg'', ''tests'', ''test_module1.py''])
       = Some ''assert False'' \<and>
     read_text v' (Path ''/'' [''tmp'', ''mypkg'', ''tests'', ''test_module1.py''])
       = Some [CHR 0x0A] \<and>
     read_text v' (Path ''/'' [''tmp'', ''mypkg'', ''examples'', ''basic_usage.py''])
       = Some ([CHR 0x0A] @ ''# Add example usage here'' @ [CHR 0x0A])"
proof -
  from pkg_used_run obtain v' where
    run: "create_project_structure ''mypkg'' tmp used_world = Inr v'"
    by (rule succeedsE)
  from package_placeholder_files [OF run] run used_world_before show ?thesis
    by (simp add: demo_paths truediv_str_plain)
qed

text \<open>
  The package run creates more directories than the planned ones: in \<open>used_world\<close>
  nothing is at \<open>/tmp/mypkg/src\<close> before the run, afterwards it is a directory, and it
  is not one of the three planned subdirectories.
\<close>

theorem src_directory_created_counterexample:
  "stat used_world (Path ''/'' [''tmp'', ''mypkg'', ''src'']) = None \<and>
   result_is_dir (create_project_structure ''mypkg'' tmp used_world)
     (Path ''/'' [''tmp'', ''mypkg'', ''src'']) \<and>
   Path ''/'' [''tmp'', ''mypkg'', ''src'']
     \<notin> set (map (truediv (truediv_str tmp ''mypkg'')) (pkg_directories ''mypkg''))"
proof -
  from pkg_used_run obtain v' where
    run: "create_project_structure ''mypkg'' tmp used_world = Inr v'"
    by (rule succeedsE)
  then have "run_calls (pkg_calls (truediv_str tmp ''mypkg'') ''mypkg''
               (clock_year used_world)) used_world = Inr v'"
    by (simp add: create_project_structure_Inr)
  from pkg_dirs(1) [OF this] have "is_dir v' (Path ''/'' ([''tmp'', ''mypkg''] @ [''src'', ''mypkg'']))"
    by (simp add: demo_paths plain_paths truediv_str_plain truediv_def)
  then have "is_dir v' (Path ''/'' ([''tmp'', ''mypkg''] @ [''src'']))"
    by (rule is_dir_parent) simp
  with run used_world_dirs(3) show ?thesis
    by (simp add: result_is_dir_def pkg_directories_def demo_paths plain_paths
          truediv_str_plain truediv_def)
qed

text \<open>
  C5, as amended. For every request \<open>(name, basePath)\<close> the project root is
  \<open>basePath/name\<close>, and the directories a completed run asks \<open>mkdir\<close> for are exactly
  \<open>data\<close>, \<open>output\<close>, \<open>logs\<close>, \<open>bash\<close> under the root for the data-project kind
  and \<open>src/<name>\<close>, \<open>tests/test_data\<close>, \<open>examples\<close> under the root for the package
  kind; all of them are directories when the run ends. Since \<open>mkdir\<close> runs with
  \<open>parents=True\<close> their missing ancestors are created too, and nothing else is: every
  directory below the file-system root that the run leaves and that was not a directory
  before is a planned subdirectory or an ancestor of one.
\<close>

theorem planned_layout:
  "(create_project n b w = Inr w' \<longrightarrow>
      mkdir_targets (new_calls w w')
        = map (truediv_str (truediv_str b n)) [''data'', ''output'', ''logs'', ''bash''] \<and>
      list_all (is_dir w') (mkdir_targets (new_calls w w')) \<and>
      (\<forall>k m. k \<noteq> [] \<longrightarrow> files w' k = Some (Dir m) \<longrightarrow>
         (\<exists>m0. files w k = Some (Dir m0)) \<or>
         made_by w' (map (truediv_str (truediv_str b n)) [''data'', ''output'', ''logs'', ''bash'']) k)) \<and>
   (create_project_structure n b v = Inr v' \<longrightarrow>
      mkdir_targets (new_calls v v')
        = map (truediv (truediv_str b n))
            [truediv_str (Path [] [''src'']) n, Path [] [''tests'', ''test_data''],
             Path [] [''examples'']] \<and>
      list_all (is_dir v') (mkdir_targets (new_calls v v')) \<and>
      (\<forall>k m. k \<noteq> [] \<longrightarrow> files v' k = Some (Dir m) \<longrightarrow>
         (\<exists>m0. files v k = Some (Dir m0)) \<or>
         made_by v' (map (truediv (truediv_str b n))
            [truediv_str (Path [] [''src'']) n, Path [] [''tests'', ''test_data''],
             Path [] [''examples'']]) k))"
proof (intro conjI impI allI)
  assume "create_project n b w = Inr w'"
  then have run: "run_calls (data_calls (truediv_str b n) (clock_year w)) w = Inr w'"
    by (simp add: create_project_Inr)
  then have nc: "new_calls w w' = data_calls (truediv_str b n) (clock_year w)"
    by (rule run_new_calls)
  then show "mkdir_targets (new_calls w w')
        = map (truediv_str (truediv_str b n)) [''data'', ''output'', ''logs'', ''bash'']"
    by (simp add: data_calls_def)
  from data_dirs(1-4) [OF run] nc show "list_all (is_dir w') (mkdir_targets (new_calls w w'))"
    by (simp add: data_calls_def)
  fix k m
  assume "k \<noteq> []" and "files w' k = Some (Dir m)"
  with run_calls_made_by [OF run] show "(\<exists>m0. files w k = Some (Dir m0)) \<or>
         made_by w' (map (truediv_str (truediv_str b n)) [''data'', ''output'', ''logs'', ''bash'']) k"
    by (simp add: data_calls_def)
next
  assume "create_project_structure n b v = Inr v'"
  then have run: "run_calls (pkg_calls (truediv_str b n) n (clock_year v)) v = Inr v'"
    by (simp add: create_project_structure_Inr)
  then have nc: "new_calls v v' = pkg_calls (truediv_str b n) n (clock_year v)"
    by (rule run_new_calls)
  then show "mkdir_targets (new_calls v v')
        = map (truediv (truediv_str b n))
            [truediv_str (Path [] [''src'']) n, Path [] [''tests'', ''test_data''],
             Path [] [''examples'']]"
    by (simp add: pkg_calls_def plain_paths)
  from pkg_dirs [OF run] nc show "list_all (is_dir v') (mkdir_targets (new_calls v v'))"
    by (simp add: pkg_calls_def)
  fix k m
  assume "k \<noteq> []" and "files v' k = Some (Dir m)"
  with run_calls_made_by [OF run] show "(\<exists>m0. files v k = Some (Dir m0)) \<or>
         made_by v' (map (truediv (truediv_str b n))
            [truediv_str (Path [] [''src'']) n, Path [] [''tests'', ''test_data''],
             Path [] [''examples'']]) k"
    by (simp add: pkg_calls_def plain_paths)
qed

theorem planned_layout_witness:
  "\<exists>w' v' m. create_project ''demo'' tmp used_world = Inr w' \<and>
     create_project_structure ''mypkg'' tmp used_world = Inr v' \<and>
     mkdir_targets (new_calls used_world w')
       = [Path ''/'' [''tmp'', ''demo'', ''data''], Path ''/'' [''tmp'', ''demo'', ''output''],
          Path ''/'' [''tmp'', ''demo'', ''logs''], Path ''/'' [''tmp'', ''demo'', ''bash'']] \<and>
     mkdir_targets (new_calls used_world v')
       = [Path ''/'' [''tmp'', ''mypkg'', ''src'', ''mypkg''],
          Path ''/'' [''tmp'', ''mypkg'', ''tests'', ''test_data''],
          Path ''/'' [''tmp'', ''mypkg'', ''examples'']] \<and>
     is_dir v' (Path ''/'' [''tmp'', ''mypkg'', ''src'', ''mypkg'']) \<and>
     files used_world [''tmp'', ''mypkg'', ''src''] = None \<and>
     files v' [''tmp'', ''mypkg'', ''src''] = Some (Dir m) \<and>
     made_by v'
       [Path ''/'' [''tmp'', ''mypkg'', ''src'', ''mypkg''],
        Path ''/'' [''tmp'', ''mypkg'', ''tests'', ''test_data''],
        Path ''/'' [''tmp'', ''mypkg'', ''examples'']]
       [''tmp'', ''mypkg'', ''src'']"
proof -
  from data_used_run obtain w' where 1: "create_project ''demo'' tmp used_world = Inr w'"
    by (rule succeedsE)
  from pkg_used_run obtain v' where
    2: "create_project_structure ''mypkg'' tmp used_world = Inr v'"
    by (rule succeedsE)
  note a = planned_layout [where n = "''demo''" and b = tmp and w = used_world and w' = w'
      and v = used_world and v' = v']
  note b = planned_layout [where n = "''mypkg''" and b = tmp and w = used_world and w' = w'
      and v = used_world and v' = v']
  from a 1
  have t1: "mkdir_targets (new_calls used_world w')
       = [Path ''/'' [''tmp'', ''demo'', ''data''], Path ''/'' [''tmp'', ''demo'', ''output''],
          Path ''/'' [''tmp'', ''demo'', ''logs''], Path ''/'' [''tmp'', ''demo'', ''bash'']]"
    by (simp add: demo_paths truediv_str_plain)
  from b 2
  have t2: "mkdir_targets (new_calls used_world v')
       = [Path ''/'' [''tmp'', ''mypkg'', ''src'', ''mypkg''],
          Path ''/'' [''tmp'', ''mypkg'', ''tests'', ''test_data''],
          Path ''/'' [''tmp'', ''mypkg'', ''examples'']]"
    and d: "list_all (is_dir v') (mkdir_targets (new_calls used_world v'))"
    and c: "\<And>k m. k \<noteq> [] \<Longrightarrow> files v' k = Some (Dir m) \<Longrightarrow>
         (\<exists>m0. files used_world k = Some (Dir m0)) \<or>
         made_by v' [Path ''/'' [''tmp'', ''mypkg'', ''src'', ''mypkg''],
          Path ''/'' [''tmp'', ''mypkg'', ''tests'', ''test_data''],
          Path ''/'' [''tmp'', ''mypkg'', ''examples'']] k"
    by (auto simp: demo_paths truediv_str_plain truediv_def)
  from d t2 have s: "is_dir v' (Path ''/'' [''tmp'', ''mypkg'', ''src'', ''mypkg''])"
    by simp
  then have "is_dir v' (Path ''/'' ([''tmp'', ''mypkg''] @ [''src'', ''mypkg'']))" by simp
  then have "is_dir v' (Path ''/'' ([''tmp'', ''mypkg''] @ [''src'']))"
    by (rule is_dir_parent) simp
  then obtain m where m: "files v' [''tmp'', ''mypkg'', ''src''] = Some (Dir m)"
    using is_dir_key [of v' "''tmp''" "''mypkg''" "''src''"] by auto
  with c [of "[''tmp'', ''mypkg'', ''src'']" m] used_world_dirs(1)
  have "made_by v' [Path ''/'' [''tmp'', ''mypkg'', ''src'', ''mypkg''],
          Path ''/'' [''tmp'', ''mypkg'', ''tests'', ''test_data''],
          Path ''/'' [''tmp'', ''mypkg'', ''examples'']] [''tmp'', ''mypkg'', ''src'']"
    by simp
  with 1 2 t1 t2 s m used_world_dirs(1) show ?thesis by blast
qed




text \<open>
  C7. For every generation of either kind, the LICENSE file holds the license text stamped
  with the year the clock shows when the license is emitted: its copyright line is
  \<open>Copyright (c) <year> Jeremy\<close> with the decimal numeral of that year.
\<close>

theorem license_year:
  "nat_of_decimal (str_nat (clock_year w)) = clock_year w \<and>
   (create_project n b w = Inr w' \<longrightarrow>
      read_text w' (truediv_str (truediv_str b n) ''LICENSE'') = Some (license_content (clock_year w)) \<and>
      contains (license_content (clock_year w))
        (''Copyright (c) '' @ str_nat (clock_year w) @ '' Jeremy'')) \<and>
   (create_project_structure n b w = Inr w' \<longrightarrow>
      read_text w' (truediv_str (truediv_str b n) ''LICENSE'')
        = Some (pkg_license_content (clock_year w)) \<and>
      contains (pkg_license_content (clock_year w))
        (''Copyright (c) '' @ str_nat (clock_year w) @ '' Jeremy''))"
proof (intro conjI impI)
  show "nat_of_decimal (str_nat (clock_year w)) = clock_year w"
    by (rule nat_of_decimal_str_nat)
next
  assume "create_project n b w = Inr w'"
  then have "run_calls (data_calls (truediv_str b n) (clock_year w)) w = Inr w'"
    by (simp add: create_project_Inr)
  then show "read_text w' (truediv_str (truediv_str b n) ''LICENSE'')
             = Some (license_content (clock_year w))"
    by (rule data_written(3))
next
  assume "create_project_structure n b w = Inr w'"
  then have "run_calls (pkg_calls (truediv_str b n) n (clock_year w)) w = Inr w'"
    by (simp add: create_project_structure_Inr)
  then show "read_text w' (truediv_str (truediv_str b n) ''LICENSE'')
             = Some (pkg_license_content (clock_year w))"
    by (rule pkg_written(7))
next
  show "contains (license_content (clock_year w))
          (''Copyright (c) '' @ str_nat (clock_year w) @ '' Jeremy'')"
    unfolding license_content_def by (rule contains_unlines) simp
next
  show "contains (pkg_license_content (clock_year w))
          (''Copyright (c) '' @ str_nat (clock_year w) @ '' Jeremy'')"
    unfolding pkg_license_content_def by (rule contains_unlines) simp
qed

theorem license_year_witness:
  "\<exists>w' v'. create_project ''demo'' tmp used_world = Inr w' \<and>
     create_project_structure ''mypkg'' tmp used_world = Inr v' \<and>
     clock_year used_world = 2031 \<and>
     read_text w' (Path ''/'' [''tmp'', ''demo'', ''LICENSE'']) = Some (license_content 2031) \<and>
     contains (license_content 2031) ''Copyright (c) 2031 Jeremy'' \<and>
     read_text v' (Path ''/'' [''tmp'', ''mypkg'', ''LICENSE'']) = Some (pkg_license_content 2031) \<and>
     contains (pkg_license_content 2031) ''Copyright (c) 2031 Jeremy''"
proof -
  from data_used_run obtain w' where 1: "create_project ''demo'' tmp used_world = Inr w'"
    by (rule succeedsE)
  from pkg_used_run obtain v' where
    2: "create_project_structure ''mypkg'' tmp used_world = Inr v'"
    by (rule succeedsE)
  have y: "clock_year used_world = 2031" by (simp add: used_world_def)
  have s: "str_nat 2031 = ''2031''" by (simp add: str_nat.simps)
  from license_year [where n = "''demo''" and b = tmp and w = used_world and w' = w'] 1 y s
  have "read_text w' (Path ''/'' [''tmp'', ''demo'', ''LICENSE'']) = Some (license_content 2031)"
    and "contains (license_content 2031) ''Copyright (c) 2031 Jeremy''"
    by (simp_all add: demo_paths truediv_str_plain)
  moreover from license_year [where n = "''mypkg''" and b = tmp and w = used_world and w' = v'] 2 y s
  have "read_text v' (Path ''/'' [''tmp'', ''mypkg'', ''LICENSE''])
          = Some (pkg_license_content 2031)"
    and "contains (pkg_license_content 2031) ''Copyright (c) 2031 Jeremy''"
    by (simp_all add: demo_paths truediv_str_plain)
  ultimately show ?thesis using 1 2 y by simp
qed

text \<open>
  C8. For every package-project generation with package name \<open>n\<close>, the content written to
  \<open>src/<n>/__init__.py\<close> contains the literal version string \<open>0.1.0\<close> (as
  \<open>__version__ = "0.1.0"\<close>) and the fixed author token: after a run that completed, the
  file at that path holds \<open>init_content n\<close>, and for every name that content contains
  both lines.
\<close>

theorem package_init_content:
  \<open>create_project_structure n b w = Inr w' \<Longrightarrow>
   read_text w' (truediv_str (truediv_str (truediv_str (truediv_str b n) ''src'') n) ''__init__.py'')
     = Some (init_content n) \<and>
   contains (init_content n) ''__version__ = "0.1.0"'' \<and>
   contains (init_content n) ''0.1.0'' \<and>
   contains (init_content n) ''__author__ = "Jeremy"'' \<and>
   contains (init_content n) ''Jeremy''\<close>
proof -
  assume "create_project_structure n b w = Inr w'"
  then have run: "run_calls (pkg_calls (truediv_str b n) n (clock_year w)) w = Inr w'"
    by (simp add: create_project_structure_Inr)
  have v: \<open>contains (init_content n) ''__version__ = "0.1.0"''\<close>
    unfolding init_content_def by (rule contains_unlines) simp
  have a: \<open>contains (init_content n) ''__author__ = "Jeremy"''\<close>
    unfolding init_content_def by (rule contains_unlines) simp
  have \<open>contains ''__version__ = "0.1.0"'' ''0.1.0''\<close> by simp
  with v have v': "contains (init_content n) ''0.1.0''" by (rule contains_trans)
  have \<open>contains ''__author__ = "Jeremy"'' ''Jeremy''\<close> by simp
  with a have a': "contains (init_content n) ''Jeremy''" by (rule contains_trans)
  from pkg_written(1) [OF run] v v' a a' show ?thesis by simp
qed

theorem package_init_content_witness:
  \<open>\<exists>w'. create_project_structure ''mypkg'' tmp used_world = Inr w' \<and>
     read_text w' (Path ''/'' [''tmp'', ''mypkg'', ''src'', ''mypkg'', ''__init__.py''])
       = Some (init_content ''mypkg'') \<and>
     contains (init_content ''mypkg'') ''__version__ = "0.1.0"'' \<and>
     contains (init_content ''mypkg'') ''__author__ = "Jeremy"''\<close>
proof -
  from pkg_used_run obtain w' where
    run: "create_project_structure ''mypkg'' tmp used_world = Inr w'"
    by (rule succeedsE)
  from package_init_content [OF run] run show ?thesis
    by (simp add: demo_paths truediv_str_plain)
qed

text \<open>
  C9. For every data-project generation, when the run has completed \<open>run.bash\<close> is a
  regular file with the runner script as content and mode \<open>0755\<close> (decimal 493), which
  has every execute bit (\<open>0111\<close>, decimal 73) set; the calls on that path are its write
  and the two \<open>chmod\<close> calls, so nothing after them changes the mode.
\<close>

theorem run_bash_executable:
  assumes "create_project n b w = Inr w'"
  shows "stat w' (truediv_str (truediv_str b n) ''run.bash'') = Some (File run_bash_content 493) \<and>
         file_mode w' (truediv_str (truediv_str b n) ''run.bash'') = Some 493 \<and>
         and (493 :: mode) 73 = 73 \<and>
         filter (\<lambda>c. target c = truediv_str (truediv_str b n) ''run.bash'') (new_calls w w')
           = [WriteCall (truediv_str (truediv_str b n) ''run.bash'') run_bash_content,
              ChmodCall (truediv_str (truediv_str b n) ''run.bash'') 493,
              ChmodCall (truediv_str (truediv_str b n) ''run.bash'') 493]"
proof -
  from assms have run:
    "run_calls (data_calls (truediv_str b n) (clock_year w)) w = Inr w'"
    by (simp add: create_project_Inr)
  from run have "new_calls w w' = data_calls (truediv_str b n) (clock_year w)"
    by (rule run_new_calls)
  then have "filter (\<lambda>c. target c = truediv_str (truediv_str b n) ''run.bash'') (new_calls w w')
           = [WriteCall (truediv_str (truediv_str b n) ''run.bash'') run_bash_content,
              ChmodCall (truediv_str (truediv_str b n) ''run.bash'') 493,
              ChmodCall (truediv_str (truediv_str b n) ''run.bash'') 493]"
    by (simp add: data_calls_def path_eq_simps)
  moreover have "and (493 :: mode) 73 = 73" by simp
  ultimately show ?thesis
    using data_run_bash [OF run] by (simp add: file_mode_def)
qed

theorem run_bash_executable_witness:
  "\<exists>w'. create_project ''demo'' tmp used_world = Inr w' \<and>
     file_mode used_world (Path ''/'' [''tmp'', ''demo'', ''run.bash'']) = Some 420 \<and>
     file_mode w' (Path ''/'' [''tmp'', ''demo'', ''run.bash'']) = Some 493"
proof -
  from data_used_run obtain w' where run: "create_project ''demo'' tmp used_world = Inr w'"
    by (rule succeedsE)
  from run_bash_executable [OF run] run used_world_before show ?thesis
    by (simp add: demo_paths truediv_str_plain)
qed

text \<open>
  C10. For the empty project name no generator rejects the request: \<open>basePath / ''\<close> is
  \<open>basePath\<close> itself, each run is exactly the sequence of calls on the base path (it
  fails only where one of those calls fails), and when it completes the directories and
  files are directly inside the base path.
\<close>

theorem empty_name_runs_in_base:
  "truediv_str b [] = b \<and>
   create_project [] b w = run_calls (data_calls b (clock_year w)) w \<and>
   create_project_structure [] b w = run_calls (pkg_calls b [] (clock_year w)) w \<and>
   (create_project [] b w = Inr w' \<longrightarrow>
      is_dir w' (truediv_str b ''data'') \<and> is_dir w' (truediv_str b ''output'') \<and>
      is_dir w' (truediv_str b ''logs'') \<and> is_dir w' (truediv_str b ''bash'') \<and>
      stat w' (truediv_str b ''config.py'') \<noteq> None \<and>
      read_text w' (truediv_str b ''helpers.py'') = Some helpers_content \<and>
      read_text w' (truediv_str b ''.gitignore'') = Some final_gitignore_content \<and>
      read_text w' (truediv_str b ''LICENSE'') = Some (license_content (clock_year w)) \<and>
      read_text w' (truediv_str b ''README.md'') = Some readme_content \<and>
      stat w' (truediv_str b ''run.bash'') = Some (File run_bash_content 493)) \<and>
   (create_project_structure [] b w = Inr w' \<longrightarrow>
      is_dir w' (truediv_str b ''src'') \<and>
      is_dir w' (truediv_str (truediv_str b ''tests'') ''test_data'') \<and>
      is_dir w' (truediv_str b ''examples'') \<and>
      read_text w' (truediv_str (truediv_str b ''src'') ''__init__.py'') = Some (init_content []) \<and>
      read_text w' (truediv_str (truediv_str b ''src'') ''base.py'') = Some base_content \<and>
      read_text w' (truediv_str (truediv_str b ''tests'') ''test_module1.py'') = Some test_content \<and>
      read_text w' (truediv_str (truediv_str b ''examples'') ''basic_usage.py'')
        = Some example_content \<and>
      read_text w' (truediv_str b ''pyproject.toml'') = Some (pyproject_content []) \<and>
      read_text w' (truediv_str b ''README.md'') = Some (pkg_readme_content []) \<and>
      read_text w' (truediv_str b ''LICENSE'') = Some (pkg_license_content (clock_year w)) \<and>
      read_text w' (truediv_str b ''.gitignore'') = Some pkg_gitignore_content)"
proof (intro conjI impI)
  show e: "truediv_str b [] = b" by (rule truediv_str_empty)
  show "create_project [] b w = run_calls (data_calls b (clock_year w)) w"
    by (simp add: create_project_run e)
  show "create_project_structure [] b w = run_calls (pkg_calls b [] (clock_year w)) w"
    by (simp add: create_project_structure_run e)
next
  assume "create_project [] b w = Inr w'"
  then have run: "run_calls (data_calls b (clock_year w)) w = Inr w'"
    by (simp add: create_project_Inr truediv_str_empty)
  note data_dirs [OF run] data_written [OF run] data_run_bash [OF run]
  then show
    "is_dir w' (truediv_str b ''data'')" "is_dir w' (truediv_str b ''output'')"
    "is_dir w' (truediv_str b ''logs'')" "is_dir w' (truediv_str b ''bash'')"
    "stat w' (truediv_str b ''config.py'') \<noteq> None"
    "read_text w' (truediv_str b ''helpers.py'') = Some helpers_content"
    "read_text w' (truediv_str b ''.gitignore'') = Some final_gitignore_content"
    "read_text w' (truediv_str b ''LICENSE'') = Some (license_content (clock_year w))"
    "read_text w' (truediv_str b ''README.md'') = Some readme_content"
    "stat w' (truediv_str b ''run.bash'') = Some (File run_bash_content 493)"
    by simp_all
next
  assume "create_project_structure [] b w = Inr w'"
  then have run: "run_calls (pkg_calls b [] (clock_year w)) w = Inr w'"
    by (simp add: create_project_structure_Inr truediv_str_empty)
  have 1: "truediv b (truediv_str (parse_path ''src'') []) = truediv_str b ''src''"
    by (simp add: truediv_str_empty) (simp add: truediv_str_def)
  have 2: "truediv b (truediv_str (parse_path ''tests'') ''test_data'')
           = truediv_str (truediv_str b ''tests'') ''test_data''"
    by (simp add: truediv_str_def truediv_assoc)
  have 3: "truediv b (parse_path ''examples'') = truediv_str b ''examples''"
    by (simp add: truediv_str_def)
  from pkg_dirs [OF run] show
    "is_dir w' (truediv_str b ''src'')"
    "is_dir w' (truediv_str (truediv_str b ''tests'') ''test_data'')"
    "is_dir w' (truediv_str b ''examples'')"
    by (simp_all add: 1 2 3)
  from pkg_written [OF run] show
    "read_text w' (truediv_str (truediv_str b ''src'') ''__init__.py'') = Some (init_content [])"
    "read_text w' (truediv_str (truediv_str b ''src'') ''base.py'') = Some base_content"
    "read_text w' (truediv_str (truediv_str b ''tests'') ''test_module1.py'') = Some test_content"
    "read_text w' (truediv_str (truediv_str b ''examples'') ''basic_usage.py'')
       = Some example_content"
    "read_text w' (truediv_str b ''pyproject.toml'') = Some (pyproject_content [])"
    "read_text w' (truediv_str b ''README.md'') = Some (pkg_readme_content [])"
    "read_text w' (truediv_str b ''LICENSE'') = Some (pkg_license_content (clock_year w))"
    "read_text w' (truediv_str b ''.gitignore'') = Some pkg_gitignore_content"
    by (simp_all add: truediv_str_empty)
qed

theorem empty_name_runs_in_base_witness:
  "\<exists>w' v'. create_project [] tmp fresh_world = Inr w' \<and>
     create_project_structure [] tmp fresh_world = Inr v' \<and>
     is_dir w' (Path ''/'' [''tmp'', ''data'']) \<and>
     read_text w' (Path ''/'' [''tmp'', ''helpers.py'']) = Some helpers_content \<and>
     is_dir v' (Path ''/'' [''tmp'', ''src'']) \<and>
     read_text v' (Path ''/'' [''tmp'', ''src'', ''__init__.py'']) = Some (init_content [])"
proof -
  from data_empty_run obtain w' where 1: "create_project [] tmp fresh_world = Inr w'"
    by (rule succeedsE)
  from pkg_empty_run obtain v' where 2: "create_project_structure [] tmp fresh_world = Inr v'"
    by (rule succeedsE)
  from empty_name_runs_in_base [where b = tmp and w = fresh_world and w' = w'] 1
  have "is_dir w' (Path ''/'' [''tmp'', ''data''])"
    and "read_text w' (Path ''/'' [''tmp'', ''helpers.py'']) = Some helpers_content"
    by (simp_all add: tmp_def truediv_str_plain)
  moreover from empty_name_runs_in_base [where b = tmp and w = fresh_world and w' = v'] 2
  have "is_dir v' (Path ''/'' [''tmp'', ''src''])"
    and "read_text v' (Path ''/'' [''tmp'', ''src'', ''__init__.py'']) = Some (init_content [])"
    by (simp_all add: tmp_def truediv_str_plain)
  ultimately show ?thesis using 1 2 by simp
qed

end
